theory Spec2Isabelle
  imports Main
begin

section \<open>Strings\<close>

text \<open>
  A JavaScript string is a sequence of UTF-16 code units. Every regular expression of the
  citation parser is written without the \<^verbatim>\<open>u\<close> flag, so it reads its input one code
  unit at a time; the model does the same. ASCII literals of the source are written with
  \<open>str\<close>, Thai literals as their code units.
\<close>

type_synonym jsstring = "nat list"

definition str :: "string \<Rightarrow> jsstring" where
  "str cs = map of_char cs"

text \<open>White space as \<^verbatim>\<open>\s\<close> and \<^verbatim>\<open>String.prototype.trim\<close> see it
  (ECMAScript WhiteSpace and LineTerminator).\<close>

definition is_ws :: "nat \<Rightarrow> bool" where
  "is_ws x \<longleftrightarrow>
     x = 0x09 \<or> x = 0x0A \<or> x = 0x0B \<or> x = 0x0C \<or> x = 0x0D \<or> x = 0x20 \<or> x = 0xA0 \<or>
     x = 0x1680 \<or> (0x2000 \<le> x \<and> x \<le> 0x200A) \<or> x = 0x2028 \<or> x = 0x2029 \<or>
     x = 0x202F \<or> x = 0x205F \<or> x = 0x3000 \<or> x = 0xFEFF"

text \<open>\<^verbatim>\<open>.\<close> matches every code unit but the four line terminators.\<close>

definition is_dot :: "nat \<Rightarrow> bool" where
  "is_dot x \<longleftrightarrow> \<not> (x = 0x0A \<or> x = 0x0D \<or> x = 0x2028 \<or> x = 0x2029)"

definition is_digit :: "nat \<Rightarrow> bool" where
  "is_digit x \<longleftrightarrow> 0x30 \<le> x \<and> x \<le> 0x39"

definition is_lower :: "nat \<Rightarrow> bool" where
  "is_lower x \<longleftrightarrow> 0x61 \<le> x \<and> x \<le> 0x7A"

definition is_upper :: "nat \<Rightarrow> bool" where
  "is_upper x \<longleftrightarrow> 0x41 \<le> x \<and> x \<le> 0x5A"

text \<open>The two halves of a surrogate pair.\<close>

definition is_high :: "nat \<Rightarrow> bool" where
  "is_high x \<longleftrightarrow> 0xD800 \<le> x \<and> x \<le> 0xDBFF"

definition is_low :: "nat \<Rightarrow> bool" where
  "is_low x \<longleftrightarrow> 0xDC00 \<le> x \<and> x \<le> 0xDFFF"

definition trim :: "jsstring \<Rightarrow> jsstring" where
  "trim s = rev (dropWhile is_ws (rev (dropWhile is_ws s)))"

text \<open>
  \<^verbatim>\<open>toLowerCase\<close>, on the Basic Latin letters. The parser lowers two strings: the
  identifier of the bare-identifier grammar, whose code units are ASCII by its own pattern,
  and the title of the short grammar, which is only compared with the all-ASCII keys of the
  abbreviation table (no code unit outside ASCII lowers to one occurring in those keys).
\<close>

definition lower_unit :: "nat \<Rightarrow> nat" where
  "lower_unit x = (if is_upper x then x + 0x20 else x)"

definition toLowerCase :: "jsstring \<Rightarrow> jsstring" where
  "toLowerCase s = map lower_unit s"

text \<open>\<^verbatim>\<open>String.prototype.includes\<close>.\<close>

fun includes_str :: "jsstring \<Rightarrow> jsstring \<Rightarrow> bool" where
  "includes_str [] key = (key = [])"
| "includes_str (x # xs) key = (take (length key) (x # xs) = key \<or> includes_str xs key)"

text \<open>\<^verbatim>\<open>parseInt(s, 10)\<close> on a string of decimal digits: the parser only calls it on
  the capture of \<^verbatim>\<open>(\d{4})\<close>.\<close>

definition parseInt :: "jsstring \<Rightarrow> int" where
  "parseInt s = foldl (\<lambda>a d. 10 * a + (int d - 0x30)) 0 s"

section \<open>Regular expressions with backtracking\<close>

text \<open>
  The patterns of the source, as a datatype. \<open>Star True r\<close> is the greedy \<^verbatim>\<open>r*\<close>,
  \<open>Star False r\<close> the lazy \<^verbatim>\<open>r*?\<close>; \<open>Grp n r\<close> is the n-th capturing group.
\<close>

datatype re =
    Eps
  | Cls "nat \<Rightarrow> bool"
  | Seq re re
  | Alt re re
  | Star bool re
  | Grp nat re

type_synonym caps = "(nat \<times> jsstring) list"

text \<open>
  \<open>ms r s c\<close> lists, in the order in which the backtracking matcher of ECMAScript tries
  them, every way \<open>r\<close> can match a prefix of \<open>s\<close>: the rest of the input and the captures
  (latest binding first). An iteration of a star that consumes nothing is rejected, as
  RepeatMatcher does.
\<close>

fun ms :: "re \<Rightarrow> jsstring \<Rightarrow> caps \<Rightarrow> (jsstring \<times> caps) list" where
  "ms Eps s c = [(s, c)]"
| "ms (Cls P) s c = (case s of [] \<Rightarrow> [] | x # xs \<Rightarrow> if P x then [(xs, c)] else [])"
| "ms (Seq a b) s c = concat (map (\<lambda>(s', c'). ms b s' c') (ms a s c))"
| "ms (Alt a b) s c = ms a s c @ ms b s c"
| "ms (Star g a) s c =
     (let more = concat (map (\<lambda>(s', c'). if length s' < length s then ms (Star g a) s' c' else [])
                             (ms a s c))
      in if g then more @ [(s, c)] else (s, c) # more)"
| "ms (Grp n a) s c =
     map (\<lambda>(s', c'). (s', (n, take (length s - length s') s) # c')) (ms a s c)"

text \<open>\<^verbatim>\<open>s.match(/^r$/)\<close>: the first way to match that reaches the end of the input.
  With both anchors the search cannot start anywhere but at the first code unit.\<close>

definition re_match :: "re \<Rightarrow> jsstring \<Rightarrow> caps option" where
  "re_match r s = map_option snd (find (\<lambda>(s', c). s' = []) (ms r s []))"

text \<open>\<open>m[n]\<close> of a match array: \<open>None\<close> is \<^verbatim>\<open>undefined\<close>.\<close>

definition grp :: "caps \<Rightarrow> nat \<Rightarrow> jsstring option" where
  "grp m n = map_of m n"

subsection \<open>Pattern combinators\<close>

definition seqs :: "re list \<Rightarrow> re" where
  "seqs rs = foldr Seq rs Eps"

definition chr :: "nat \<Rightarrow> re" where
  "chr k = Cls (\<lambda>x. x = k)"

text \<open>A letter under the \<^verbatim>\<open>i\<close> flag (no \<^verbatim>\<open>u\<close> flag): Canonicalize maps a code
  unit to its upper-case form unless that takes a non-ASCII unit to an ASCII one, so a Basic
  Latin letter is matched by its two cases only; every other code unit of these patterns
  has no case.\<close>

definition chr_i :: "nat \<Rightarrow> re" where
  "chr_i k = Cls (\<lambda>x. lower_unit x = lower_unit k)"

definition lit :: "jsstring \<Rightarrow> re" where
  "lit s = seqs (map chr s)"

definition lit_i :: "jsstring \<Rightarrow> re" where
  "lit_i s = seqs (map chr_i s)"

text \<open>\<^verbatim>\<open>r?\<close>; none of the optional parts of these patterns can match the empty string.\<close>

definition opt :: "re \<Rightarrow> re" where
  "opt r = Alt r Eps"

definition plus :: "re \<Rightarrow> re" where
  "plus r = Seq r (Star True r)"

definition plus_lazy :: "re \<Rightarrow> re" where
  "plus_lazy r = Seq r (Star False r)"

definition ws :: re where "ws = Cls is_ws"
definition digit :: re where "digit = Cls is_digit"
definition digit4 :: re where "digit4 = seqs [digit, digit, digit, digit]"


section \<open>The citation parser\<close>

subsection \<open>The grammars\<close>

text \<open>The pinpoint every grammar captures:
  \<^verbatim>\<open>\d+(?:\/\d+)?(?:\(\d+\))*\<close>.\<close>

definition PINPOINT :: re where
  "PINPOINT =
     seqs [plus digit,
           opt (Seq (chr 0x2F) (plus digit)),
           Star True (seqs [chr 0x28, plus digit, chr 0x29])]"

text \<open>The section markers \<^verbatim>\<open>(?:Section|s\.?)\<close> and
  \<^verbatim>\<open>(?:Section|s\.?|\<dots>)\<close> with the Thai word, the era marker
  \<^verbatim>\<open>B\.?E\.?\<close>, and the optional \<^verbatim>\<open>(?:\s*\(\d{4}\))?\<close>.\<close>

definition MATRA :: jsstring where
  "MATRA = [0x0E21, 0x0E32, 0x0E15, 0x0E23, 0x0E32]"

definition PHO_SO :: jsstring where
  "PHO_SO = [0x0E1E, 0x2E, 0x0E28, 0x2E]"

definition s_dot :: re where
  "s_dot = Seq (chr_i 0x73) (opt (chr 0x2E))"

definition marker_en :: re where
  "marker_en = Alt (lit_i (str ''Section'')) s_dot"

definition marker_any :: re where
  "marker_any = Alt (lit_i (str ''Section'')) (Alt s_dot (lit_i MATRA))"

definition be_marker :: re where
  "be_marker = seqs [chr_i 0x42, opt (chr 0x2E), chr_i 0x45, opt (chr 0x2E)]"

definition ce_in_parens :: re where
  "ce_in_parens = opt (seqs [Star True ws, chr 0x28, digit4, chr 0x29])"

text \<open>\<^verbatim>\<open>/^\<dots>\s+(\d+(?:\/\d+)?(?:\(\d+\))*)\s+(.+?)\s+\<dots>\s*(\d{4})$/\<close>
  with the Thai words for "section" and "B.E.".\<close>

definition THAI_CITATION :: re where
  "THAI_CITATION =
     seqs [lit MATRA, plus ws, Grp 1 PINPOINT, plus ws, Grp 2 (plus_lazy (Cls is_dot)),
           plus ws, lit PHO_SO, Star True ws, Grp 3 digit4]"

text \<open>\<^verbatim>\<open>/^(?:Section|s\.?)\s+(\d+(?:\/\d+)?(?:\(\d+\))*)\s*,?\s+(.+?)\s+B\.?E\.?\s*(\d{4})(?:\s*\(\d{4}\))?$/i\<close>\<close>

definition ENGLISH_BE_CITATION :: re where
  "ENGLISH_BE_CITATION =
     seqs [marker_en, plus ws, Grp 1 PINPOINT, Star True ws, opt (chr 0x2C), plus ws,
           Grp 2 (plus_lazy (Cls is_dot)), plus ws, be_marker, Star True ws, Grp 3 digit4,
           ce_in_parens]"

text \<open>\<^verbatim>\<open>/^(?:Section|s\.?)\s+(\d+(?:\/\d+)?(?:\(\d+\))*)\s*,?\s+(.+?)\s+(\d{4})$/i\<close>\<close>

definition ENGLISH_CE_CITATION :: re where
  "ENGLISH_CE_CITATION =
     seqs [marker_en, plus ws, Grp 1 PINPOINT, Star True ws, opt (chr 0x2C), plus ws,
           Grp 2 (plus_lazy (Cls is_dot)), plus ws, Grp 3 digit4]"

text \<open>\<^verbatim>\<open>/^s\.?\s+(\d+(?:\/\d+)?(?:\(\d+\))*)\s*,?\s+(.+?)\s+(\d{4})$/i\<close>\<close>

definition SHORT_CITATION :: re where
  "SHORT_CITATION =
     seqs [s_dot, plus ws, Grp 1 PINPOINT, Star True ws, opt (chr 0x2C), plus ws,
           Grp 2 (plus_lazy (Cls is_dot)), plus ws, Grp 3 digit4]"

text \<open>\<^verbatim>\<open>/^(.+?)\s+B\.?E\.?\s*(\d{4})(?:\s*\(\d{4}\))?\s*,?\s*(?:Section|s\.?|\<dots>)\s*(\d+(?:\/\d+)?(?:\(\d+\))*)$/i\<close>\<close>

definition TRAILING_SECTION_BE :: re where
  "TRAILING_SECTION_BE =
     seqs [Grp 1 (plus_lazy (Cls is_dot)), plus ws, be_marker, Star True ws, Grp 2 digit4,
           ce_in_parens, Star True ws, opt (chr 0x2C), Star True ws, marker_any, Star True ws,
           Grp 3 PINPOINT]"

text \<open>\<^verbatim>\<open>/^(.+?)\s+(\d{4})\s*,?\s*(?:Section|s\.?|\<dots>)\s*(\d+(?:\/\d+)?(?:\(\d+\))*)$/i\<close>\<close>

definition TRAILING_SECTION_CE :: re where
  "TRAILING_SECTION_CE =
     seqs [Grp 1 (plus_lazy (Cls is_dot)), plus ws, Grp 2 digit4, Star True ws,
           opt (chr 0x2C), Star True ws, marker_any, Star True ws, Grp 3 PINPOINT]"

text \<open>\<^verbatim>\<open>/^([a-z][a-z0-9-]+)\s*,?\s*(?:Section|s\.?|\<dots>)\s*(\d+(?:\/\d+)?(?:\(\d+\))*)$/i\<close>;
  under the \<^verbatim>\<open>i\<close> flag the class \<^verbatim>\<open>[a-z]\<close> takes both cases.\<close>

definition is_alpha :: "nat \<Rightarrow> bool" where
  "is_alpha x \<longleftrightarrow> is_lower x \<or> is_upper x"

definition is_id_unit :: "nat \<Rightarrow> bool" where
  "is_id_unit x \<longleftrightarrow> is_alpha x \<or> is_digit x \<or> x = 0x2D"

definition ID_BASED :: re where
  "ID_BASED =
     seqs [Grp 1 (Seq (Cls is_alpha) (plus (Cls is_id_unit))), Star True ws, opt (chr 0x2C),
           Star True ws, marker_any, Star True ws, Grp 2 PINPOINT]"

text \<open>\<^verbatim>\<open>/^(\d+(?:\/\d+)?)(?:\((\d+)\))?(?:\(([a-z])\))?$/\<close>\<close>

definition SECTION_REF :: re where
  "SECTION_REF =
     seqs [Grp 1 (Seq (plus digit) (opt (Seq (chr 0x2F) (plus digit)))),
           opt (seqs [chr 0x28, Grp 2 (plus digit), chr 0x29]),
           opt (seqs [chr 0x28, Grp 3 (Cls is_lower), chr 0x29])]"

subsection \<open>The lookup tables\<close>

definition ABBREVIATION_MAP :: "(jsstring \<times> jsstring) list" where
  "ABBREVIATION_MAP =
     [(str ''pdpa'', str ''Personal Data Protection Act''),
      (str ''cca'', str ''Computer Crime Act''),
      (str ''csa'', str ''Cybersecurity Act''),
      (str ''eta'', str ''Electronic Transactions Act''),
      (str ''ccc'', str ''Civil and Commercial Code'')]"

definition THAI_SHORT_MAP :: "(jsstring \<times> jsstring) list" where
  "THAI_SHORT_MAP =
     [([0x0E1E, 0x002E, 0x0E23, 0x002E, 0x0E1A, 0x002E, 0x0E04, 0x0E38, 0x0E49, 0x0E21, 0x0E04,
        0x0E23, 0x0E2D, 0x0E07, 0x0E02, 0x0E49, 0x0E2D, 0x0E21, 0x0E39, 0x0E25, 0x0E2A, 0x0E48,
        0x0E27, 0x0E19, 0x0E1A, 0x0E38, 0x0E04, 0x0E04, 0x0E25],
       str ''Personal Data Protection Act''),
      ([0x0E1E, 0x002E, 0x0E23, 0x002E, 0x0E1A, 0x002E, 0x0E27, 0x0E48, 0x0E32, 0x0E14, 0x0E49,
        0x0E27, 0x0E22, 0x0E01, 0x0E32, 0x0E23, 0x0E01, 0x0E23, 0x0E30, 0x0E17, 0x0E33, 0x0E04,
        0x0E27, 0x0E32, 0x0E21, 0x0E1C, 0x0E34, 0x0E14, 0x0E40, 0x0E01, 0x0E35, 0x0E48, 0x0E22,
        0x0E27, 0x0E01, 0x0E31, 0x0E1A, 0x0E04, 0x0E2D, 0x0E21, 0x0E1E, 0x0E34, 0x0E27, 0x0E40,
        0x0E15, 0x0E2D, 0x0E23, 0x0E4C],
       str ''Computer Crime Act''),
      ([0x0E1E, 0x002E, 0x0E23, 0x002E, 0x0E1A, 0x002E, 0x0E01, 0x0E32, 0x0E23, 0x0E23, 0x0E31,
        0x0E01, 0x0E29, 0x0E32, 0x0E04, 0x0E27, 0x0E32, 0x0E21, 0x0E21, 0x0E31, 0x0E48, 0x0E19,
        0x0E04, 0x0E07, 0x0E1B, 0x0E25, 0x0E2D, 0x0E14, 0x0E20, 0x0E31, 0x0E22, 0x0E44, 0x0E0B,
        0x0E40, 0x0E1A, 0x0E2D, 0x0E23, 0x0E4C],
       str ''Cybersecurity Act''),
      ([0x0E1E, 0x002E, 0x0E23, 0x002E, 0x0E1A, 0x002E, 0x0E27, 0x0E48, 0x0E32, 0x0E14, 0x0E49,
        0x0E27, 0x0E22, 0x0E18, 0x0E38, 0x0E23, 0x0E01, 0x0E23, 0x0E23, 0x0E21, 0x0E17, 0x0E32,
        0x0E07, 0x0E2D, 0x0E34, 0x0E40, 0x0E25, 0x0E47, 0x0E01, 0x0E17, 0x0E23, 0x0E2D, 0x0E19,
        0x0E34, 0x0E01, 0x0E2A, 0x0E4C],
       str ''Electronic Transactions Act''),
      ([0x0E1B, 0x0E23, 0x0E30, 0x0E21, 0x0E27, 0x0E25, 0x0E01, 0x0E0E, 0x0E2B, 0x0E21, 0x0E32,
        0x0E22, 0x0E41, 0x0E1E, 0x0E48, 0x0E07, 0x0E41, 0x0E25, 0x0E30, 0x0E1E, 0x0E32, 0x0E13,
        0x0E34, 0x0E0A, 0x0E22, 0x0E4C],
       str ''Civil and Commercial Code'')]"

text \<open>\<^verbatim>\<open>for (const [key, value] of Object.entries(THAI_SHORT_MAP))\<close>: the value of the
  first key, in insertion order, that the title includes.\<close>

fun first_included :: "(jsstring \<times> jsstring) list \<Rightarrow> jsstring \<Rightarrow> jsstring option" where
  "first_included [] t = None"
| "first_included ((key, v) # kvs) t = (if includes_str t key then Some v else first_included kvs t)"

definition resolveThaiTitle :: "jsstring \<Rightarrow> jsstring option" where
  "resolveThaiTitle thaiTitle = first_included THAI_SHORT_MAP thaiTitle"

text \<open>
  \<^verbatim>\<open>ABBREVIATION_MAP[abbrev.toLowerCase()]\<close> reads a property of an object literal:
  an own key gives its title, and a name that the literal inherits from
  \<^verbatim>\<open>Object.prototype\<close> gives that member, which is neither a string nor
  \<^verbatim>\<open>undefined\<close>.
\<close>

datatype property = Undefined | OwnString jsstring | Inherited

definition Object_prototype :: "jsstring list" where
  "Object_prototype =
     [str ''constructor'', str ''__defineGetter__'', str ''__defineSetter__'',
      str ''hasOwnProperty'', str ''__lookupGetter__'', str ''__lookupSetter__'',
      str ''isPrototypeOf'', str ''propertyIsEnumerable'', str ''toString'', str ''valueOf'',
      str ''__proto__'', str ''toLocaleString'']"

definition resolveAbbreviation :: "jsstring \<Rightarrow> property" where
  "resolveAbbreviation abbrev =
     (let key = toLowerCase abbrev in
      case map_of ABBREVIATION_MAP key of
        Some v \<Rightarrow> OwnString v
      | None \<Rightarrow> if key \<in> set Object_prototype then Inherited else Undefined)"

subsection \<open>The parsed citation\<close>

datatype citation_type = Statute | RoyalDecree | Unknown

record ParsedCitation =
  valid :: bool
  type_f :: citation_type
  title :: "jsstring option"
  title_en :: "jsstring option"
  abbreviation_f :: "jsstring option"
  be_year :: "int option"
  ce_year :: "int option"
  section_f :: "jsstring option"
  subsection_f :: "jsstring option"
  paragraph_f :: "jsstring option"
  error_f :: "jsstring option"

text \<open>A record literal of the source sets the fields it names; the others are absent.\<close>

definition no_citation :: ParsedCitation where
  "no_citation =
     \<lparr>valid = False, type_f = Unknown, title = None, title_en = None, abbreviation_f = None,
      be_year = None, ce_year = None, section_f = None, subsection_f = None,
      paragraph_f = None, error_f = None\<rparr>"

text \<open>\<^verbatim>\<open>x || undefined\<close> on an optional string: the empty string is falsy.\<close>

definition or_undefined :: "jsstring option \<Rightarrow> jsstring option" where
  "or_undefined v = (case v of None \<Rightarrow> None | Some w \<Rightarrow> if w = [] then None else Some w)"

definition parseSection ::
  "jsstring \<Rightarrow> jsstring \<Rightarrow> int \<Rightarrow> int \<Rightarrow> citation_type \<Rightarrow> ParsedCitation" where
  "parseSection sectionStr ttl beYear ceYear ty =
     (case re_match SECTION_REF sectionStr of
        None \<Rightarrow>
          no_citation\<lparr>valid := True, type_f := ty, title := Some (trim ttl),
            be_year := Some beYear, ce_year := Some ceYear, section_f := Some sectionStr\<rparr>
      | Some sectionMatch \<Rightarrow>
          no_citation\<lparr>valid := True, type_f := ty, title := Some (trim ttl),
            be_year := Some beYear, ce_year := Some ceYear,
            section_f := grp sectionMatch 1,
            subsection_f := or_undefined (grp sectionMatch 2),
            paragraph_f := or_undefined (grp sectionMatch 3)\<rparr>)"

text \<open>A capture of a group that every match of its pattern binds.\<close>

definition cap :: "caps \<Rightarrow> nat \<Rightarrow> jsstring" where
  "cap m n = (case grp m n of Some v \<Rightarrow> v | None \<Rightarrow> [])"

text \<open>What the core can throw: the TypeError of a method call on a value that has no such
  method, and the error that SQLite raises while it runs a statement.\<close>

datatype error = TypeError | SqliteError

text \<open>
  The grammars are tried in the order of the source. In the short grammar, when the
  abbreviation table answers with an inherited member, \<^verbatim>\<open>resolved ?? yearOrAbbrev\<close> is
  that member and \<^verbatim>\<open>title.trim()\<close> in \<^verbatim>\<open>parseSection\<close> throws a TypeError.
\<close>

definition year_pair :: "int \<Rightarrow> int \<times> int" where
  "year_pair year =
     (let ceYear = (if year > 2400 then year - 543 else year);
          beYear = (if year > 2400 then year else year + 543)
      in (beYear, ceYear))"

definition parseCitation :: "jsstring \<Rightarrow> error + ParsedCitation" where
  "parseCitation citation =
     (let trimmed = trim citation in
      case re_match THAI_CITATION trimmed of
        Some m \<Rightarrow>
          (let beYear = parseInt (cap m 3);
               thaiTitle = trim (cap m 2);
               englishTitle = resolveThaiTitle thaiTitle
           in Inr (parseSection (cap m 1)
                     (case englishTitle of Some t \<Rightarrow> t | None \<Rightarrow> thaiTitle)
                     beYear (beYear - 543) Statute))
      | None \<Rightarrow>
      (case re_match ENGLISH_BE_CITATION trimmed of
        Some m \<Rightarrow>
          (let beYear = parseInt (cap m 3)
           in Inr (parseSection (cap m 1) (cap m 2) beYear (beYear - 543) Statute))
      | None \<Rightarrow>
      (case re_match TRAILING_SECTION_BE trimmed of
        Some m \<Rightarrow>
          (let beYear = parseInt (cap m 2)
           in Inr (parseSection (cap m 3) (cap m 1) beYear (beYear - 543) Statute))
      | None \<Rightarrow>
      (case re_match SHORT_CITATION trimmed of
        Some m \<Rightarrow>
          (let yearOrAbbrev = trim (cap m 2);
               year = parseInt (cap m 3);
               resolved = resolveAbbreviation yearOrAbbrev;
               (beYear, ceYear) = year_pair year
           in case resolved of
                Inherited \<Rightarrow> Inl TypeError
              | OwnString t \<Rightarrow> Inr (parseSection (cap m 1) t beYear ceYear Statute)
              | Undefined \<Rightarrow> Inr (parseSection (cap m 1) yearOrAbbrev beYear ceYear Statute))
      | None \<Rightarrow>
      (case re_match ID_BASED trimmed of
        Some m \<Rightarrow>
          (let idPart = toLowerCase (cap m 1)
           in Inr (no_citation\<lparr>valid := True, type_f := Statute, title := Some idPart,
                     section_f := Some (cap m 2)\<rparr>))
      | None \<Rightarrow>
      (case re_match ENGLISH_CE_CITATION trimmed of
        Some m \<Rightarrow>
          (let year = parseInt (cap m 3);
               (beYear, ceYear) = year_pair year
           in Inr (parseSection (cap m 1) (cap m 2) beYear ceYear Statute))
      | None \<Rightarrow>
      (case re_match TRAILING_SECTION_CE trimmed of
        Some m \<Rightarrow>
          (let year = parseInt (cap m 2);
               (beYear, ceYear) = year_pair year
           in Inr (parseSection (cap m 3) (cap m 1) beYear ceYear Statute))
      | None \<Rightarrow>
          Inr (no_citation\<lparr>valid := False, type_f := Unknown,
                 error_f := Some (str ''Could not parse Thai citation: '' @ [0x22] @ trimmed
                                  @ [0x22])\<rparr>))))))))"

section \<open>The citation formatter\<close>

text \<open>A year in a template literal: the decimal digits of an integer.\<close>

fun nat_digits :: "nat \<Rightarrow> jsstring" where
  "nat_digits n = (if n < 10 then [0x30 + n] else nat_digits (n div 10) @ [0x30 + n mod 10])"

definition number_to_string :: "int \<Rightarrow> jsstring" where
  "number_to_string i = (if i < 0 then 0x2D # nat_digits (nat (- i)) else nat_digits (nat i))"

text \<open>\<^verbatim>\<open>${x ?? ''}\<close>\<close>

definition str_or_empty :: "jsstring option \<Rightarrow> jsstring" where
  "str_or_empty v = (case v of None \<Rightarrow> [] | Some w \<Rightarrow> w)"

definition num_or_empty :: "int option \<Rightarrow> jsstring" where
  "num_or_empty v = (case v of None \<Rightarrow> [] | Some i \<Rightarrow> number_to_string i)"

text \<open>An optional string in a condition: absent and empty are both falsy.\<close>

definition truthy :: "jsstring option \<Rightarrow> bool" where
  "truthy v \<longleftrightarrow> (case v of None \<Rightarrow> False | Some w \<Rightarrow> w \<noteq> [])"

definition buildPinpoint :: "ParsedCitation \<Rightarrow> jsstring" where
  "buildPinpoint parsed =
     (let ref0 = str_or_empty (section_f parsed);
          ref1 = (if truthy (subsection_f parsed)
                  then ref0 @ [0x28] @ str_or_empty (subsection_f parsed) @ [0x29] else ref0);
          ref2 = (if truthy (paragraph_f parsed)
                  then ref1 @ [0x28] @ str_or_empty (paragraph_f parsed) @ [0x29] else ref1)
      in ref2)"

definition full_en_template :: "ParsedCitation \<Rightarrow> jsstring \<Rightarrow> jsstring" where
  "full_en_template parsed pinpoint =
     trim (str ''Section '' @ pinpoint @ str '', '' @ str_or_empty (title parsed)
           @ str '' B.E. '' @ num_or_empty (be_year parsed)
           @ str '' ('' @ num_or_empty (ce_year parsed) @ str '')'')"

text \<open>The format is a string at run time; the \<^verbatim>\<open>switch\<close> compares it with the four
  names and has a \<^verbatim>\<open>default\<close>.\<close>

definition formatCitation :: "ParsedCitation \<Rightarrow> jsstring \<Rightarrow> jsstring" where
  "formatCitation parsed format =
     (if \<not> valid parsed \<or> \<not> truthy (section_f parsed) then []
      else
        let pinpoint = buildPinpoint parsed in
        if format = str ''full_th'' then
          trim (MATRA @ str '' '' @ pinpoint @ str '' '' @ str_or_empty (title parsed)
                @ str '' '' @ PHO_SO @ str '' '' @ num_or_empty (be_year parsed))
        else if format = str ''full_en'' then full_en_template parsed pinpoint
        else if format = str ''short'' then
          trim (str ''s. '' @ pinpoint @ str '', ''
                @ (case abbreviation_f parsed of Some a \<Rightarrow> a
                   | None \<Rightarrow> str_or_empty (title parsed))
                @ str '' '' @ num_or_empty (ce_year parsed))
        else if format = str ''pinpoint'' then str ''s. '' @ pinpoint
        else full_en_template parsed pinpoint)"

section \<open>The document store\<close>

text \<open>
  The two tables the core reads, with the columns its statements name. A nullable column
  is an option; the rows are in the order in which a statement visits them.
\<close>

record legal_document =
  doc_id :: jsstring
  doc_title :: jsstring
  doc_title_en :: "jsstring option"
  doc_short_name :: "jsstring option"
  doc_status :: jsstring
  doc_be_year :: "int option"
  doc_ce_year :: "int option"

record legal_provision =
  prov_document_id :: jsstring
  prov_provision_ref :: jsstring
  prov_section :: jsstring

record database =
  legal_documents :: "legal_document list"
  legal_provisions :: "legal_provision list"

text \<open>
  SQLite keeps and compares text as UTF-8, and a string bound to a statement is encoded
  on the way in: a surrogate pair is one code point, and a surrogate without its partner
  becomes U+FFFD.
\<close>

fun code_points :: "jsstring \<Rightarrow> nat list" where
  "code_points [] = []"
| "code_points [x] = [if is_high x \<or> is_low x then 0xFFFD else x]"
| "code_points (h # l # xs) =
     (if is_high h \<and> is_low l
      then (0x10000 + (h - 0xD800) * 0x400 + (l - 0xDC00)) # code_points xs
      else (if is_high h \<or> is_low h then 0xFFFD else h) # code_points (l # xs))"

definition utf8_bytes :: "nat \<Rightarrow> nat" where
  "utf8_bytes cp = (if cp < 0x80 then 1 else if cp < 0x800 then 2
                    else if cp < 0x10000 then 3 else 4)"

definition utf8_length :: "jsstring \<Rightarrow> nat" where
  "utf8_length s = sum_list (map utf8_bytes (code_points s))"

text \<open>\<^verbatim>\<open>column = ?\<close> on text compares the two encoded texts.\<close>

definition sql_eq :: "jsstring \<Rightarrow> jsstring \<Rightarrow> bool" where
  "sql_eq a b \<longleftrightarrow> code_points a = code_points b"

text \<open>
  \<^verbatim>\<open>text LIKE pattern\<close>, with no \<^verbatim>\<open>ESCAPE\<close>. SQLite first measures the pattern: one
  of more than \<^verbatim>\<open>SQLITE_MAX_LIKE_PATTERN_LENGTH\<close> bytes raises
  \<^verbatim>\<open>LIKE or GLOB pattern too complex\<close>, whatever the text, \<^verbatim>\<open>NULL\<close> included.
  Otherwise a \<^verbatim>\<open>NULL\<close> text selects no row, and pattern and text are compared as
  zero-terminated strings, code point by code point: \<^verbatim>\<open>%\<close> stands for any run of code
  points, \<^verbatim>\<open>_\<close> for one, and Basic Latin letters compare without case.
\<close>

definition SQLITE_MAX_LIKE_PATTERN_LENGTH :: nat where
  "SQLITE_MAX_LIKE_PATTERN_LENGTH = 50000"

definition c_string :: "nat list \<Rightarrow> nat list" where
  "c_string s = takeWhile (\<lambda>c. c \<noteq> 0) s"

fun patternCompare :: "nat list \<Rightarrow> nat list \<Rightarrow> bool" where
  "patternCompare [] t = (t = [])"
| "patternCompare (p # ps) t =
     (if p = 0x25 then
        patternCompare ps t
        \<or> (case t of [] \<Rightarrow> False | x # ts \<Rightarrow> patternCompare (p # ps) ts)
      else
        (case t of [] \<Rightarrow> False
         | x # ts \<Rightarrow> (p = 0x5F \<or> lower_unit p = lower_unit x) \<and> patternCompare ps ts))"

definition like_text :: "jsstring \<Rightarrow> jsstring \<Rightarrow> bool" where
  "like_text pat t = patternCompare (c_string (code_points pat)) (c_string (code_points t))"

definition like_null :: "jsstring \<Rightarrow> jsstring option \<Rightarrow> error + bool" where
  "like_null pat col =
     (if SQLITE_MAX_LIKE_PATTERN_LENGTH < utf8_length pat then Inl SqliteError
      else Inr (case col of None \<Rightarrow> False | Some t \<Rightarrow> like_text pat t))"

definition sql_like :: "jsstring \<Rightarrow> jsstring \<Rightarrow> error + bool" where
  "sql_like pat t = like_null pat (Some t)"

text \<open>
  A \<^verbatim>\<open>WHERE\<close> clause is evaluated on one row from left to right: \<^verbatim>\<open>OR\<close> stops at
  the first operand that holds, \<^verbatim>\<open>AND\<close> at the first that does not, and an error
  ends the statement.
\<close>

definition sql_or :: "error + bool \<Rightarrow> error + bool \<Rightarrow> error + bool" where
  "sql_or a b = (case a of Inl e \<Rightarrow> Inl e | Inr x \<Rightarrow> (if x then Inr True else b))"

definition sql_and :: "error + bool \<Rightarrow> error + bool \<Rightarrow> error + bool" where
  "sql_and a b = (case a of Inl e \<Rightarrow> Inl e | Inr x \<Rightarrow> (if x then b else Inr False))"

text \<open>\<^verbatim>\<open>db.prepare(...).get(...)\<close>: the first row that the clause selects, if any.\<close>

fun first_row :: "('r \<Rightarrow> error + bool) \<Rightarrow> 'r list \<Rightarrow> error + 'r option" where
  "first_row P [] = Inr None"
| "first_row P (r # rs) =
     (case P r of Inl e \<Rightarrow> Inl e
      | Inr x \<Rightarrow> (if x then Inr (Some r) else first_row P rs))"

definition percent :: "jsstring \<Rightarrow> jsstring" where
  "percent x = [0x25] @ x @ [0x25]"

section \<open>The statute identifier resolver\<close>

text \<open>The three statements of \<^verbatim>\<open>resolveExistingStatuteId\<close>, each with its bound
  parameters; all end in \<^verbatim>\<open>LIMIT 1\<close> and select the \<^verbatim>\<open>id\<close> column.\<close>

datatype statement =
    SelectById jsstring
  | SelectByTitle jsstring jsstring
  | SelectByShortName jsstring

fun selects :: "statement \<Rightarrow> legal_document \<Rightarrow> error + bool" where
  "selects (SelectById x) d = Inr (sql_eq (doc_id d) x)"
| "selects (SelectByTitle pat pat_en) d =
     sql_or (sql_like pat (doc_title d)) (like_null pat_en (doc_title_en d))"
| "selects (SelectByShortName pat) d = like_null pat (doc_short_name d)"

definition get_id :: "database \<Rightarrow> statement \<Rightarrow> error + jsstring option" where
  "get_id db q =
     (case first_row (selects q) (legal_documents db) of
        Inl e \<Rightarrow> Inl e
      | Inr r \<Rightarrow> Inr (map_option doc_id r))"

text \<open>The result, thrown or returned, and the statements that were run to find it, in
  order. The function has no handler: what a statement throws leaves it unchanged.\<close>

definition resolveExistingStatuteId ::
  "database \<Rightarrow> jsstring \<Rightarrow> (error + jsstring option) \<times> statement list" where
  "resolveExistingStatuteId db inputId =
     (let q1 = SelectById inputId in
      (case get_id db q1 of
         Inl e \<Rightarrow> (Inl e, [q1])
       | Inr exact \<Rightarrow>
           (case exact of
              Some exact_id \<Rightarrow> (Inr (Some exact_id), [q1])
            | None \<Rightarrow>
                (let q2 = SelectByTitle (percent inputId) (percent inputId) in
                 (case get_id db q2 of
                    Inl e \<Rightarrow> (Inl e, [q1, q2])
                  | Inr byTitle \<Rightarrow>
                      (case byTitle of
                         Some title_id \<Rightarrow> (Inr (Some title_id), [q1, q2])
                       | None \<Rightarrow>
                           (let q3 = SelectByShortName (percent inputId)
                            in (get_id db q3, [q1, q2, q3]))))))))"

section \<open>The citation validator\<close>

record ValidationResult =
  citation :: ParsedCitation
  document_exists :: bool
  provision_exists :: bool
  document_title :: "jsstring option"
  status :: "jsstring option"
  warnings :: "jsstring list"

text \<open>The document statement: a title or short name like the parsed title, and the year
  in either calendar, or no year constraint when the bound year is 0.\<close>

definition document_row :: "jsstring \<Rightarrow> int \<Rightarrow> legal_document \<Rightarrow> error + bool" where
  "document_row titleSearch yearSearch d =
     sql_and
       (sql_or (sql_like (percent titleSearch) (doc_title d))
          (sql_or (like_null (percent titleSearch) (doc_title_en d))
             (like_null (percent titleSearch) (doc_short_name d))))
       (Inr (doc_be_year d = Some yearSearch \<or> doc_ce_year d = Some yearSearch
             \<or> yearSearch = 0))"

text \<open>The provision statement.\<close>

definition provision_row ::
  "jsstring \<Rightarrow> jsstring \<Rightarrow> jsstring \<Rightarrow> bool \<Rightarrow> legal_provision \<Rightarrow> error + bool" where
  "provision_row docId provisionRef pinpoint allowPrefixMatch p =
     sql_and (Inr (sql_eq (prov_document_id p) docId))
       (sql_or (Inr (sql_eq (prov_provision_ref p) provisionRef))
          (sql_or (Inr (sql_eq (prov_section p) pinpoint))
             (sql_and (Inr allowPrefixMatch)
                (sql_or (sql_like (provisionRef @ [0x28, 0x25]) (prov_provision_ref p))
                   (sql_like (pinpoint @ [0x28, 0x25]) (prov_section p))))))"

definition doc_display :: "legal_document \<Rightarrow> jsstring" where
  "doc_display d = (case doc_title_en d of Some t \<Rightarrow> t | None \<Rightarrow> doc_title d)"

definition validateCitation :: "database \<Rightarrow> jsstring \<Rightarrow> error + ValidationResult" where
  "validateCitation db cit =
     (case parseCitation cit of
        Inl e \<Rightarrow> Inl e
      | Inr parsed \<Rightarrow>
          (if \<not> valid parsed then
             Inr \<lparr>citation = parsed, document_exists = False, provision_exists = False,
                  document_title = None, status = None,
                  warnings = [(case error_f parsed of Some e \<Rightarrow> e
                               | None \<Rightarrow> str ''Invalid citation format'')]\<rparr>
           else
             (let titleSearch = str_or_empty (title parsed);
                  yearSearch = (case be_year parsed of Some y \<Rightarrow> y
                                | None \<Rightarrow> (case ce_year parsed of Some y \<Rightarrow> y | None \<Rightarrow> 0))
              in (case first_row (document_row titleSearch yearSearch) (legal_documents db) of
                    Inl e \<Rightarrow> Inl e
                  | Inr found \<Rightarrow>
                     (case found of
                        None \<Rightarrow>
                          Inr \<lparr>citation = parsed, document_exists = False,
                               provision_exists = False, document_title = None,
                               status = None,
                               warnings = [str ''Document '' @ [0x22] @ titleSearch @ [0x22]
                                           @ str '' not found in database'']\<rparr>
                      | Some doc \<Rightarrow>
                          (let warnings1 = (if doc_status doc = str ''repealed''
                                            then [str ''This statute has been repealed'']
                                            else []);
                               pinpoint = str_or_empty (section_f parsed)
                                 @ (if truthy (subsection_f parsed)
                                    then [0x28] @ str_or_empty (subsection_f parsed) @ [0x29]
                                    else [])
                                 @ (if truthy (paragraph_f parsed)
                                    then [0x28] @ str_or_empty (paragraph_f parsed) @ [0x29]
                                    else []);
                               provisionRef = str ''s'' @ pinpoint;
                               allowPrefixMatch =
                                 (subsection_f parsed = None \<and> paragraph_f parsed = None)
                           in (case (if truthy (section_f parsed)
                                     then (case first_row
                                                  (provision_row (doc_id doc) provisionRef
                                                     pinpoint allowPrefixMatch)
                                                  (legal_provisions db) of
                                             Inl e \<Rightarrow> Inl e
                                           | Inr prov \<Rightarrow> Inr (prov \<noteq> None))
                                     else Inr False) of
                                 Inl e \<Rightarrow> Inl e
                               | Inr provisionExists \<Rightarrow>
                                   (let warnings2 =
                                          (if truthy (section_f parsed) \<and> \<not> provisionExists
                                           then warnings1
                                                @ [str ''Section '' @ pinpoint
                                                   @ str '' not found in '' @ doc_display doc]
                                           else warnings1)
                                    in Inr \<lparr>citation = parsed, document_exists = True,
                                            provision_exists = provisionExists,
                                            document_title = Some (doc_display doc),
                                            status = Some (doc_status doc),
                                            warnings = warnings2\<rparr>))))))))"

section \<open>The search query builder\<close>

definition MAX_QUERY_LENGTH :: nat where
  "MAX_QUERY_LENGTH = 1000"

record FtsQueryVariants =
  primary :: jsstring
  fallback :: "jsstring option"

text \<open>\<^verbatim>\<open>\b\<close> separates a word character \<^verbatim>\<open>[A-Za-z0-9_]\<close> from a code unit
  that is none, or from either end of the input.\<close>

definition is_word :: "nat \<Rightarrow> bool" where
  "is_word x \<longleftrightarrow> is_alpha x \<or> is_digit x \<or> x = 0x5F"

text \<open>\<open>has_word w prev s\<close>: \<^verbatim>\<open>\bw\b\<close> matches somewhere in \<open>s\<close>, where \<open>prev\<close> says
  that the code unit before \<open>s\<close> is a word character and \<open>w\<close> is made of word characters.\<close>

fun has_word :: "jsstring \<Rightarrow> bool \<Rightarrow> jsstring \<Rightarrow> bool" where
  "has_word w prev [] = False"
| "has_word w prev (x # xs) =
     ((\<not> prev \<and> take (length w) (x # xs) = w
       \<and> (case drop (length w) (x # xs) of [] \<Rightarrow> True | y # ys \<Rightarrow> \<not> is_word y))
      \<or> has_word w (is_word x) xs)"

text \<open>\<^verbatim>\<open>EXPLICIT_FTS_SYNTAX.test(s)\<close> for
  \<^verbatim>\<open>/["""]|(\bAND\b)|(\bOR\b)|(\bNOT\b)|\*$/\<close>: the class lists the one code unit
  U+0022, three times.\<close>

definition EXPLICIT_FTS_SYNTAX :: "jsstring \<Rightarrow> bool" where
  "EXPLICIT_FTS_SYNTAX s \<longleftrightarrow>
     0x22 \<in> set s
     \<or> has_word (str ''AND'') False s
     \<or> has_word (str ''OR'') False s
     \<or> has_word (str ''NOT'') False s
     \<or> (s \<noteq> [] \<and> last s = 0x2A)"

text \<open>
  \<^verbatim>\<open>token.replace(/[^\p{L}\p{N}_-]/gu, '')\<close>. Under the \<^verbatim>\<open>u\<close> flag the pattern
  reads code points, so a surrogate pair is kept or dropped as one character. The Unicode
  tables behind \<^verbatim>\<open>\p{L}\<close> and \<^verbatim>\<open>\p{N}\<close> are not part of the repository: \<open>LN\<close>
  says whether a code point is a letter or a number.
\<close>

definition keeps :: "(nat \<Rightarrow> bool) \<Rightarrow> nat \<Rightarrow> bool" where
  "keeps LN cp \<longleftrightarrow> LN cp \<or> cp = 0x5F \<or> cp = 0x2D"

fun sanitiseToken :: "(nat \<Rightarrow> bool) \<Rightarrow> jsstring \<Rightarrow> jsstring" where
  "sanitiseToken LN [] = []"
| "sanitiseToken LN [x] = (if keeps LN x then [x] else [])"
| "sanitiseToken LN (h # l # xs) =
     (if is_high h \<and> is_low l then
        (if keeps LN (0x10000 + (h - 0xD800) * 0x400 + (l - 0xDC00))
         then h # l # sanitiseToken LN xs else sanitiseToken LN xs)
      else
        (if keeps LN h then h # sanitiseToken LN (l # xs) else sanitiseToken LN (l # xs)))"

text \<open>\<^verbatim>\<open>s.split(/\s+/)\<close>: the pieces between the maximal runs of white space, the
  empty pieces at either end included.\<close>

function split_ws :: "jsstring \<Rightarrow> jsstring list" where
  "split_ws [] = [[]]"
| "split_ws (x # xs) =
     (if is_ws x then [] # split_ws (dropWhile is_ws xs)
      else (case split_ws xs of [] \<Rightarrow> [[x]] | t # ts \<Rightarrow> (x # t) # ts))"
  by pat_completeness auto
termination
  by (relation "measure length") (auto simp: less_Suc_eq_le length_dropWhile_le)

text \<open>\<^verbatim>\<open>Array.prototype.join\<close>\<close>

fun join :: "jsstring \<Rightarrow> jsstring list \<Rightarrow> jsstring" where
  "join sep [] = []"
| "join sep [t] = t"
| "join sep (t # u # us) = t @ sep @ join sep (u # us)"

text \<open>\<^verbatim>\<open>s.replace(/--/g, '')\<close>: the matches are found from left to right and do not
  overlap.\<close>

fun strip_comments :: "jsstring \<Rightarrow> jsstring" where
  "strip_comments (x # y # xs) =
     (if x = 0x2D \<and> y = 0x2D then strip_comments xs else x # strip_comments (y # xs))"
| "strip_comments xs = xs"

definition smart_quotes :: "jsstring \<Rightarrow> jsstring" where
  "smart_quotes s = map (\<lambda>x. if x = 0x201C \<or> x = 0x201D then 0x22 else x) s"

definition strip_semicolons :: "jsstring \<Rightarrow> jsstring" where
  "strip_semicolons s = filter (\<lambda>x. x \<noteq> 0x3B) s"

definition quoteCount :: "jsstring \<Rightarrow> nat" where
  "quoteCount s = length (filter (\<lambda>x. x = 0x22) s)"

definition empty_phrase :: jsstring where
  "empty_phrase = [0x22, 0x22]"

definition buildFtsQueryVariants :: "(nat \<Rightarrow> bool) \<Rightarrow> jsstring \<Rightarrow> FtsQueryVariants" where
  "buildFtsQueryVariants LN query =
     (let trimmed = take MAX_QUERY_LENGTH (trim query) in
      if length trimmed = 0 then \<lparr>primary = empty_phrase, fallback = None\<rparr>
      else if EXPLICIT_FTS_SYNTAX trimmed then
        let normalised0 =
              take MAX_QUERY_LENGTH (strip_comments (strip_semicolons (smart_quotes trimmed)));
            normalised = (if quoteCount normalised0 mod 2 \<noteq> 0 then normalised0 @ [0x22]
                          else normalised0)
        in \<lparr>primary = normalised, fallback = None\<rparr>
      else
        let tokens = filter (\<lambda>t. length t > 0)
                       (map (sanitiseToken LN) (filter (\<lambda>t. length t > 0) (split_ws trimmed)))
        in if length tokens = 0 then \<lparr>primary = empty_phrase, fallback = None\<rparr>
           else \<lparr>primary = join (str '' '') (map (\<lambda>t. [0x22] @ t @ [0x22, 0x2A]) tokens),
                 fallback = Some (join (str '' OR '') (map (\<lambda>t. t @ [0x2A]) tokens))\<rparr>)"

section \<open>Evaluating the matcher\<close>

text \<open>The two list comprehensions of \<open>ms\<close>, named, so that a match on a concrete input
  unfolds one result at a time.\<close>

definition binds :: "re \<Rightarrow> (jsstring \<times> caps) list \<Rightarrow> (jsstring \<times> caps) list" where
  "binds b xs = concat (map (\<lambda>(s', c'). ms b s' c') xs)"

definition iters ::
  "bool \<Rightarrow> re \<Rightarrow> nat \<Rightarrow> (jsstring \<times> caps) list \<Rightarrow> (jsstring \<times> caps) list" where
  "iters g a n xs =
     concat (map (\<lambda>(s', c'). if length s' < n then ms (Star g a) s' c' else []) xs)"

definition binds_grp :: "nat \<Rightarrow> jsstring \<Rightarrow> (jsstring \<times> caps) list \<Rightarrow> (jsstring \<times> caps) list" where
  "binds_grp n s xs = map (\<lambda>(s', c'). (s', (n, take (length s - length s') s) # c')) xs"

section \<open>What a pattern matches\<close>

text \<open>
  \<open>mt r u c c'\<close>: the pattern \<open>r\<close> matches exactly the string \<open>u\<close> and takes the captures
  \<open>c\<close> to \<open>c'\<close>. The relation forgets the order in which the matcher tries the
  alternatives; the matcher \<open>ms\<close> computes exactly its instances.
\<close>

inductive mt :: "re \<Rightarrow> jsstring \<Rightarrow> caps \<Rightarrow> caps \<Rightarrow> bool" where
  mt_Eps: "mt Eps [] c c"
| mt_Cls: "P x \<Longrightarrow> mt (Cls P) [x] c c"
| mt_Seq: "mt a u c c1 \<Longrightarrow> mt b v c1 c2 \<Longrightarrow> mt (Seq a b) (u @ v) c c2"
| mt_AltL: "mt a u c c1 \<Longrightarrow> mt (Alt a b) u c c1"
| mt_AltR: "mt b u c c1 \<Longrightarrow> mt (Alt a b) u c c1"
| mt_StarNil: "mt (Star g a) [] c c"
| mt_StarStep: "mt a u c c1 \<Longrightarrow> u \<noteq> [] \<Longrightarrow> mt (Star g a) v c1 c2 \<Longrightarrow> mt (Star g a) (u @ v) c c2"
| mt_Grp: "mt a u c c1 \<Longrightarrow> mt (Grp n a) u c ((n, u) # c1)"


text \<open>Every code unit a pattern can consume satisfies \<open>Q\<close>.\<close>

primrec re_units :: "(nat \<Rightarrow> bool) \<Rightarrow> re \<Rightarrow> bool" where
  "re_units Q Eps = True"
| "re_units Q (Cls P) = (\<forall>x. P x \<longrightarrow> Q x)"
| "re_units Q (Seq a b) = (re_units Q a \<and> re_units Q b)"
| "re_units Q (Alt a b) = (re_units Q a \<and> re_units Q b)"
| "re_units Q (Star g a) = re_units Q a"
| "re_units Q (Grp k a) = re_units Q a"

text \<open>The numbers of the capturing groups of a pattern.\<close>

primrec groups :: "re \<Rightarrow> nat set" where
  "groups Eps = {}"
| "groups (Cls P) = {}"
| "groups (Seq a b) = groups a \<union> groups b"
| "groups (Alt a b) = groups a \<union> groups b"
| "groups (Star g a) = groups a"
| "groups (Grp k a) = insert k (groups a)"

text \<open>Whatever group \<open>n\<close> of the pattern captures satisfies \<open>Q\<close>.\<close>

primrec grp_holds :: "nat \<Rightarrow> (jsstring \<Rightarrow> bool) \<Rightarrow> re \<Rightarrow> bool" where
  "grp_holds n Q Eps = True"
| "grp_holds n Q (Cls P) = True"
| "grp_holds n Q (Seq a b) = (grp_holds n Q a \<and> grp_holds n Q b)"
| "grp_holds n Q (Alt a b) = (grp_holds n Q a \<and> grp_holds n Q b)"
| "grp_holds n Q (Star g a) = grp_holds n Q a"
| "grp_holds n Q (Grp k a) =
     (grp_holds n Q a \<and> (k = n \<longrightarrow> (\<forall>u c c'. mt a u c c' \<longrightarrow> Q u)))"

text \<open>Group \<open>n\<close> of the pattern cannot capture inside a string whose code units all
  satisfy \<open>Q\<close>.\<close>

primrec grp_blocked :: "nat \<Rightarrow> (nat \<Rightarrow> bool) \<Rightarrow> re \<Rightarrow> bool" where
  "grp_blocked n Q Eps = True"
| "grp_blocked n Q (Cls P) = True"
| "grp_blocked n Q (Seq a b) = (grp_blocked n Q a \<and> grp_blocked n Q b)"
| "grp_blocked n Q (Alt a b) = (grp_blocked n Q a \<and> grp_blocked n Q b)"
| "grp_blocked n Q (Star g a) = grp_blocked n Q a"
| "grp_blocked n Q (Grp k a) =
     (if k = n then (\<forall>u c c'. mt a u c c' \<longrightarrow> \<not> list_all Q u) else grp_blocked n Q a)"

text \<open>The code units of a pinpoint: digits, the slash and the two parentheses.\<close>

definition is_pin_unit :: "nat \<Rightarrow> bool" where
  "is_pin_unit x \<longleftrightarrow> is_digit x \<or> x = 0x2F \<or> x = 0x28 \<or> x = 0x29"

section \<open>Auxiliary notions and sample data\<close>

text \<open>A string that still holds the comment sequence \<^verbatim>\<open>--\<close>.\<close>

fun has_comment :: "jsstring \<Rightarrow> bool" where
  "has_comment (x # y # xs) = ((x = 0x2D \<and> y = 0x2D) \<or> has_comment (y # xs))"
| "has_comment xs = False"

text \<open>The citation of the formatter's tests, and what the parser makes of
  \<^verbatim>\<open>s. 3, PDPA 2019\<close>.\<close>

definition pdpa3 :: ParsedCitation where
  "pdpa3 =
     \<lparr>valid = True, type_f = Statute, title = Some (str ''Personal Data Protection Act''),
      title_en = None, abbreviation_f = None, be_year = Some 2562, ce_year = Some 2019,
      section_f = Some (str ''3''), subsection_f = None, paragraph_f = None, error_f = None\<rparr>"

text \<open>The first document of the test fixture with its two provisions.\<close>

definition pdpa_document :: legal_document where
  "pdpa_document =
     \<lparr>doc_id = str ''pdpa-be2562'',
      doc_title =
        [0x0E1E, 0x0E23, 0x0E30, 0x0E23, 0x0E32, 0x0E0A, 0x0E1A, 0x0E31, 0x0E0D, 0x0E0D, 0x0E31,
         0x0E15, 0x0E34, 0x0E04, 0x0E38, 0x0E49, 0x0E21, 0x0E04, 0x0E23, 0x0E2D, 0x0E07, 0x0E02,
         0x0E49, 0x0E2D, 0x0E21, 0x0E39, 0x0E25, 0x0E2A, 0x0E48, 0x0E27, 0x0E19, 0x0E1A, 0x0E38,
         0x0E04, 0x0E04, 0x0E25, 0x0020, 0x0E1E, 0x002E, 0x0E28, 0x002E, 0x0020, 0x0032, 0x0035,
         0x0036, 0x0032],
      doc_title_en = Some (str ''Personal Data Protection Act B.E. 2562 (2019)''),
      doc_short_name = Some (str ''PDPA 2019''),
      doc_status = str ''in_force'',
      doc_be_year = Some 2562, doc_ce_year = Some 2019\<rparr>"

definition fixture :: database where
  "fixture =
     \<lparr>legal_documents = [pdpa_document],
      legal_provisions =
        [\<lparr>prov_document_id = str ''pdpa-be2562'', prov_provision_ref = str ''s3'',
          prov_section = str ''3''\<rparr>,
         \<lparr>prov_document_id = str ''pdpa-be2562'', prov_provision_ref = str ''s19'',
          prov_section = str ''19''\<rparr>]\<rparr>"

text \<open>A stand-in for the Unicode tables on Basic Latin: letters and digits.\<close>

definition ascii_LN :: "nat \<Rightarrow> bool" where
  "ascii_LN x \<longleftrightarrow> is_alpha x \<or> is_digit x"

text \<open>The years of a citation follow from the bare year \<open>y\<close> by its magnitude.\<close>

definition by_magnitude :: "int \<Rightarrow> ParsedCitation \<Rightarrow> bool" where
  "by_magnitude y p \<longleftrightarrow>
     (if y > 2400 then be_year p = Some y \<and> ce_year p = Some (y - 543)
      else ce_year p = Some y \<and> be_year p = Some (y + 543))"

text \<open>The bare four-digit year that \<^verbatim>\<open>parseCitation\<close> reads from a trimmed input: the
  capture of the first grammar to match, in the order of the source, when that grammar is
  the short one or one of the two with a year of the common era.\<close>

definition bare_year :: "jsstring \<Rightarrow> int option" where
  "bare_year trimmed =
     (if re_match THAI_CITATION trimmed = None \<and> re_match ENGLISH_BE_CITATION trimmed = None
         \<and> re_match TRAILING_SECTION_BE trimmed = None
      then (case re_match SHORT_CITATION trimmed of
              Some m \<Rightarrow> Some (parseInt (cap m 3))
            | None \<Rightarrow>
                (if re_match ID_BASED trimmed = None
                 then (case re_match ENGLISH_CE_CITATION trimmed of
                         Some m \<Rightarrow> Some (parseInt (cap m 3))
                       | None \<Rightarrow>
                           (case re_match TRAILING_SECTION_CE trimmed of
                              Some m \<Rightarrow> Some (parseInt (cap m 2))
                            | None \<Rightarrow> None))
                 else None))
      else None)"

text \<open>At most four decimal digits.\<close>

definition year_digits :: "jsstring \<Rightarrow> bool" where
  "year_digits u \<longleftrightarrow> length u \<le> 4 \<and> list_all is_digit u"

text \<open>Every match of the pattern binds group \<open>n\<close>.\<close>

primrec grp_sets :: "nat \<Rightarrow> re \<Rightarrow> bool" where
  "grp_sets n Eps = False"
| "grp_sets n (Cls P) = False"
| "grp_sets n (Seq a b) = (grp_sets n a \<or> grp_sets n b)"
| "grp_sets n (Alt a b) = (grp_sets n a \<and> grp_sets n b)"
| "grp_sets n (Star g a) = False"
| "grp_sets n (Grp k a) = (k = n \<or> grp_sets n a)"

text \<open>Classes of code units that tell the parts of a formatted citation apart: those of a
  section marker, of the era marker, of what follows the era marker in the English form,
  and of what follows it in the Thai form.\<close>

definition marker_unit :: "nat \<Rightarrow> bool" where
  "marker_unit x \<longleftrightarrow> is_alpha x \<or> x = 0x2E"

definition era_unit :: "nat \<Rightarrow> bool" where
  "era_unit x \<longleftrightarrow> lower_unit x = 0x62 \<or> lower_unit x = 0x65 \<or> x = 0x2E"

definition tail_unit :: "nat \<Rightarrow> bool" where
  "tail_unit x \<longleftrightarrow> is_ws x \<or> is_digit x \<or> x = 0x28 \<or> x = 0x29"

definition year_unit :: "nat \<Rightarrow> bool" where
  "year_unit x \<longleftrightarrow> is_ws x \<or> is_digit x"

lemma binds_Nil: "binds b [] = []"
  by (simp add: binds_def)

lemma binds_Cons: "binds b ((s', c') # xs) = ms b s' c' @ binds b xs"
  by (simp add: binds_def)

lemma iters_Nil: "iters g a n [] = []"
  by (simp add: iters_def)

lemma iters_Cons:
  "iters g a n ((s', c') # xs) =
     (if length s' < n then ms (Star g a) s' c' else []) @ iters g a n xs"
  by (simp add: iters_def)

lemma binds_grp_Nil: "binds_grp n s [] = []"
  by (simp add: binds_grp_def)

lemma binds_grp_Cons:
  "binds_grp n s ((s', c') # xs) =
     (s', (n, take (length s - length s') s) # c') # binds_grp n s xs"
  by (simp add: binds_grp_def)

lemma ms_Seq_eval: "ms (Seq a b) s c = binds b (ms a s c)"
  by (simp add: binds_def)

lemma ms_Star_eval:
  "ms (Star True a) s c = iters True a (length s) (ms a s c) @ [(s, c)]"
  "ms (Star False a) s c = (s, c) # iters False a (length s) (ms a s c)"
  by (simp_all add: iters_def)

lemma ms_Cls_eval:
  "ms (Cls P) [] c = []"
  "ms (Cls P) (x # xs) c = (if P x then [(xs, c)] else [])"
  by simp_all

lemma ms_Grp_eval: "ms (Grp n a) s c = binds_grp n s (ms a s c)"
  by (simp add: binds_grp_def)

lemma ms_Eps_eval: "ms Eps s c = [(s, c)]"
  by simp

lemma ms_Alt_eval: "ms (Alt a b) s c = ms a s c @ ms b s c"
  by simp

declare ms.simps [simp del]

lemmas ms_eval =
  ms_Eps_eval ms_Cls_eval ms_Seq_eval ms_Alt_eval ms_Star_eval ms_Grp_eval
  binds_Nil binds_Cons iters_Nil iters_Cons binds_grp_Nil binds_grp_Cons

lemmas re_defs =
  seqs_def plus_lazy_def plus_def opt_def chr_def chr_i_def lit_def lit_i_def ws_def
  digit4_def digit_def PINPOINT_def MATRA_def PHO_SO_def s_dot_def marker_en_def
  marker_any_def be_marker_def ce_in_parens_def

lemmas cls_defs =
  is_dot_def is_ws_def is_digit_def is_lower_def is_upper_def is_alpha_def is_id_unit_def
  lower_unit_def

lemmas match_eval = re_match_def ms_eval re_defs cls_defs

lemma str_Nil: "str [] = []"
  by (simp add: str_def)

lemma str_Cons: "str (c # cs) = of_char c # str cs"
  by (simp add: str_def)

lemmas parse_eval =
  parseCitation_def parseSection_def cap_def grp_def trim_def parseInt_def year_pair_def
  resolveThaiTitle_def resolveAbbreviation_def ABBREVIATION_MAP_def THAI_SHORT_MAP_def
  Object_prototype_def toLowerCase_def or_undefined_def no_citation_def str_Nil str_Cons

lemmas grammar_defs =
  THAI_CITATION_def ENGLISH_BE_CITATION_def ENGLISH_CE_CITATION_def SHORT_CITATION_def
  TRAILING_SECTION_BE_def TRAILING_SECTION_CE_def ID_BASED_def SECTION_REF_def

lemmas citation_eval = parse_eval match_eval grammar_defs

section \<open>Worked citations\<close>

lemma parse_short_pdpa: "parseCitation (str ''s. 3, PDPA 2019'') = Inr pdpa3"
  by (simp add: citation_eval pdpa3_def)

lemma parse_english_be:
  "parseCitation (str ''Section 3, Personal Data Protection Act B.E. 2562'') = Inr pdpa3"
  by (simp add: citation_eval pdpa3_def)

section \<open>The formatter\<close>

text \<open>
  C6. \<^verbatim>\<open>formatCitation\<close> is a total function: on a citation that is not valid or has no
  section it returns the empty string, whatever the format, and on a format that is none of
  the four recognised names it returns what it returns for \<^verbatim>\<open>full_en\<close>.
\<close>

theorem formatCitation_total:
  "(\<not> valid parsed \<or> section_f parsed = None \<longrightarrow> formatCitation parsed format = [])
   \<and> (format \<notin> {str ''full_th'', str ''full_en'', str ''short'', str ''pinpoint''}
        \<longrightarrow> formatCitation parsed format = formatCitation parsed (str ''full_en''))"
  by (simp add: formatCitation_def truthy_def Let_def str_def)

lemma format_pdpa3_full_en:
  "formatCitation pdpa3 (str ''full_en'')
     = str ''Section 3, Personal Data Protection Act B.E. 2562 (2019)''"
  by (simp add: formatCitation_def pdpa3_def truthy_def buildPinpoint_def str_or_empty_def
      full_en_template_def num_or_empty_def number_to_string_def str_Nil str_Cons trim_def
      is_ws_def)

theorem formatCitation_total_witness:
  "\<not> valid no_citation \<and> formatCitation no_citation (str ''short'') = []
   \<and> section_f (pdpa3\<lparr>section_f := None\<rparr>) = None
   \<and> formatCitation (pdpa3\<lparr>section_f := None\<rparr>) (str ''pinpoint'') = []
   \<and> str ''bogus'' \<notin> {str ''full_th'', str ''full_en'', str ''short'', str ''pinpoint''}
   \<and> formatCitation pdpa3 (str ''bogus'')
       = str ''Section 3, Personal Data Protection Act B.E. 2562 (2019)''"
proof -
  have h1: "\<not> valid no_citation"
    by (simp add: no_citation_def)
  have h2: "section_f (pdpa3\<lparr>section_f := None\<rparr>) = None"
    by simp
  have h3: "str ''bogus'' \<notin> {str ''full_th'', str ''full_en'', str ''short'', str ''pinpoint''}"
    by (simp add: str_def)
  show ?thesis
    using h1 h2 h3 formatCitation_total [of no_citation "str ''short''"]
      formatCitation_total [of "pdpa3\<lparr>section_f := None\<rparr>" "str ''pinpoint''"]
      formatCitation_total [of pdpa3 "str ''bogus''"] format_pdpa3_full_en
    by simp
qed

section \<open>The two years of a parsed citation\<close>

text \<open>
  C2. Whenever \<^verbatim>\<open>parseCitation\<close> returns a citation, its \<^verbatim>\<open>be_year\<close> is present
  exactly when its \<^verbatim>\<open>ce_year\<close> is, and when they are present the second is the first
  less 543: no result carries one year without the other.
\<close>

theorem years_paired:
  assumes "parseCitation s = Inr p"
  shows "(be_year p = None \<longleftrightarrow> ce_year p = None)
         \<and> (\<forall>b c. be_year p = Some b \<longrightarrow> ce_year p = Some c \<longrightarrow> c = b - 543 \<and> b = c + 543)"
  using assms
  by (auto simp: parseCitation_def parseSection_def year_pair_def no_citation_def Let_def
      split: option.splits property.splits if_splits)

theorem years_paired_witness:
  "parseCitation (str ''s. 3, PDPA 2019'') = Inr pdpa3
   \<and> be_year pdpa3 = Some 2562 \<and> ce_year pdpa3 = Some 2019
   \<and> (2019 :: int) = 2562 - 543 \<and> (2562 :: int) = 2019 + 543"
proof -
  have h: "parseCitation (str ''s. 3, PDPA 2019'') = Inr pdpa3"
    by (rule parse_short_pdpa)
  have y: "be_year pdpa3 = Some 2562 \<and> ce_year pdpa3 = Some 2019"
    by (simp add: pdpa3_def)
  show ?thesis
    using h y years_paired [OF h] by blast
qed

section \<open>The store\<close>

lemma first_row_find:
  "(\<And>r. r \<in> set rs \<Longrightarrow> P r = Inr (Q r)) \<Longrightarrow> first_row P rs = Inr (find Q rs)"
  by (induction rs) simp_all

lemma first_row_known: "first_row P rs = Inr (Some r) \<Longrightarrow> r \<in> set rs"
  by (induction rs) (auto split: sum.splits if_splits)

lemma code_points_bmp:
  "\<forall>x \<in> set s. \<not> is_high x \<and> \<not> is_low x \<Longrightarrow> code_points s = s"
  by (induction s rule: code_points.induct) simp_all

lemma code_points_ascii: "\<forall>x \<in> set s. x < 0x80 \<Longrightarrow> code_points s = s"
  by (rule code_points_bmp) (auto simp: is_high_def is_low_def)

lemma utf8_length_ascii: "\<forall>x \<in> set s. x < 0x80 \<Longrightarrow> utf8_length s = length s"
proof -
  assume a: "\<forall>x \<in> set s. x < 0x80"
  then have "sum_list (map utf8_bytes s) = length s"
    by (induction s) (simp_all add: utf8_bytes_def)
  then show ?thesis
    using a by (simp add: utf8_length_def code_points_ascii)
qed

lemma zero_code_points: "0 \<in> set (code_points s) \<longleftrightarrow> 0 \<in> set s"
  by (induction s rule: code_points.induct) (auto simp: is_high_def is_low_def)

lemma c_string_id: "0 \<notin> set s \<Longrightarrow> c_string s = s"
  by (induction s) (simp_all add: c_string_def)

text \<open>A pattern matches itself, each wild card standing for its own character, and
  between two \<^verbatim>\<open>%\<close> it matches every text that contains it.\<close>

lemma patternCompare_percent: "patternCompare [0x25] t"
  by (induction t) simp_all

lemma patternCompare_prefix: "patternCompare (x @ [0x25]) (x @ q)"
proof (induction x)
  case Nil
  show ?case using patternCompare_percent by simp
next
  case (Cons a x)
  show ?case
  proof (cases "a = 0x25")
    case True
    have "patternCompare (0x25 # x @ [0x25]) (x @ q)"
      using Cons.IH by simp
    then show ?thesis using True by simp
  next
    case False
    then show ?thesis using Cons.IH by simp
  qed
qed

lemma patternCompare_skip:
  "patternCompare (0x25 # pat) t \<Longrightarrow> patternCompare (0x25 # pat) (p @ t)"
  by (induction p) simp_all

lemma patternCompare_contains: "patternCompare ([0x25] @ x @ [0x25]) (p @ x @ q)"
proof -
  have "patternCompare (0x25 # x @ [0x25]) (x @ q)"
    using patternCompare_prefix [of x q] by simp
  then show ?thesis
    using patternCompare_skip [of "x @ [0x25]" "x @ q" p] by simp
qed

lemma includes_str_split: "includes_str t x \<Longrightarrow> \<exists>p q. t = p @ x @ q"
proof (induction t)
  case Nil
  then show ?case by simp
next
  case (Cons a t)
  show ?case
  proof (cases "take (length x) (a # t) = x")
    case True
    then have "a # t = [] @ x @ drop (length x) (a # t)"
      by (metis append_Nil append_take_drop_id)
    then show ?thesis by blast
  next
    case False
    then have "includes_str t x" using Cons.prems by simp
    then obtain p q where "t = p @ x @ q" using Cons.IH by blast
    then have "a # t = (a # p) @ x @ q" by simp
    then show ?thesis by blast
  qed
qed

lemma code_points_percent:
  "code_points (percent x) = [0x25] @ code_points x @ [0x25]"
proof -
  have snoc: "code_points (y @ [0x25]) = code_points y @ [0x25]" for y
    by (induction y rule: code_points.induct) (simp_all add: is_high_def is_low_def)
  have "code_points (0x25 # z) = 0x25 # code_points z" for z
    by (cases z) (simp_all add: is_high_def is_low_def)
  then show ?thesis
    using snoc [of x] by (simp add: percent_def)
qed

lemma like_text_contains:
  assumes "0 \<notin> set x" and "0 \<notin> set t" and "includes_str (code_points t) (code_points x)"
  shows "like_text (percent x) t"
proof -
  obtain p q where t: "code_points t = p @ code_points x @ q"
    using assms(3) includes_str_split by blast
  have "0 \<notin> set (code_points (percent x))"
    using assms(1) by (simp add: code_points_percent zero_code_points)
  moreover have "0 \<notin> set (code_points t)"
    using assms(2) by (simp add: zero_code_points)
  ultimately show ?thesis
    using patternCompare_contains [of "code_points x" p q] t
    by (simp add: like_text_def c_string_id code_points_percent)
qed

lemma like_null_fits:
  "utf8_length pat \<le> SQLITE_MAX_LIKE_PATTERN_LENGTH \<Longrightarrow>
     like_null pat col = Inr (case col of None \<Rightarrow> False | Some t \<Rightarrow> like_text pat t)"
  by (simp add: like_null_def)

lemma like_null_complex:
  "SQLITE_MAX_LIKE_PATTERN_LENGTH < utf8_length pat \<Longrightarrow> like_null pat col = Inl SqliteError"
  by (simp add: like_null_def)

lemmas store_eval =
  fixture_def pdpa_document_def document_row_def provision_row_def like_null_def sql_like_def
  like_text_def c_string_def sql_eq_def sql_or_def sql_and_def utf8_length_def utf8_bytes_def
  SQLITE_MAX_LIKE_PATTERN_LENGTH_def is_high_def is_low_def percent_def
  doc_display_def str_or_empty_def truthy_def lower_unit_def is_upper_def str_Nil str_Cons

section \<open>The validator\<close>

text \<open>
  C4. In every verdict that \<^verbatim>\<open>validateCitation\<close> returns, for every store and every
  input, \<^verbatim>\<open>provision_exists\<close> implies \<^verbatim>\<open>document_exists\<close>.
\<close>

theorem provision_needs_document:
  assumes "validateCitation db cit = Inr r"
  shows "provision_exists r \<longrightarrow> document_exists r"
  using assms
  by (auto simp: validateCitation_def Let_def split: sum.splits option.splits if_splits)

lemma validate_pdpa3:
  "validateCitation fixture (str ''Section 3, Personal Data Protection Act B.E. 2562'') =
     Inr \<lparr>citation = pdpa3, document_exists = True, provision_exists = True,
          document_title = Some (str ''Personal Data Protection Act B.E. 2562 (2019)''),
          status = Some (str ''in_force''), warnings = []\<rparr>"
  unfolding validateCitation_def parse_english_be
  by (simp add: pdpa3_def store_eval)

theorem provision_needs_document_witness:
  "validateCitation fixture (str ''Section 3, Personal Data Protection Act B.E. 2562'') =
     Inr \<lparr>citation = pdpa3, document_exists = True, provision_exists = True,
          document_title = Some (str ''Personal Data Protection Act B.E. 2562 (2019)''),
          status = Some (str ''in_force''), warnings = []\<rparr>
   \<and> provision_exists \<lparr>citation = pdpa3, document_exists = True, provision_exists = True,
          document_title = Some (str ''Personal Data Protection Act B.E. 2562 (2019)''),
          status = Some (str ''in_force''), warnings = []\<rparr>
   \<and> document_exists \<lparr>citation = pdpa3, document_exists = True, provision_exists = True,
          document_title = Some (str ''Personal Data Protection Act B.E. 2562 (2019)''),
          status = Some (str ''in_force''), warnings = []\<rparr>"
  using validate_pdpa3 provision_needs_document [OF validate_pdpa3] by simp

section \<open>The resolver\<close>

lemma get_id_by_id:
  "get_id db (SelectById x)
     = Inr (map_option doc_id (find (\<lambda>d. sql_eq (doc_id d) x) (legal_documents db)))"
  by (simp add: get_id_def first_row_find [of _ _ "\<lambda>d. sql_eq (doc_id d) x"])

lemma get_id_by_title:
  assumes "utf8_length pat \<le> SQLITE_MAX_LIKE_PATTERN_LENGTH"
  shows "get_id db (SelectByTitle pat pat)
     = Inr (map_option doc_id
         (find (\<lambda>d. like_text pat (doc_title d)
                  \<or> (case doc_title_en d of None \<Rightarrow> False | Some t \<Rightarrow> like_text pat t))
            (legal_documents db)))"
proof -
  have "selects (SelectByTitle pat pat) d
          = Inr (like_text pat (doc_title d)
                 \<or> (case doc_title_en d of None \<Rightarrow> False | Some t \<Rightarrow> like_text pat t))" for d
    using assms by (simp add: sql_or_def sql_like_def like_null_fits)
  then show ?thesis
    by (simp add: get_id_def
        first_row_find [of _ _ "\<lambda>d. like_text pat (doc_title d)
           \<or> (case doc_title_en d of None \<Rightarrow> False | Some t \<Rightarrow> like_text pat t)"])
qed

lemma get_id_by_short_name:
  assumes "utf8_length pat \<le> SQLITE_MAX_LIKE_PATTERN_LENGTH"
  shows "get_id db (SelectByShortName pat)
     = Inr (map_option doc_id
         (find (\<lambda>d. case doc_short_name d of None \<Rightarrow> False | Some t \<Rightarrow> like_text pat t)
            (legal_documents db)))"
proof -
  have "selects (SelectByShortName pat) d
          = Inr (case doc_short_name d of None \<Rightarrow> False | Some t \<Rightarrow> like_text pat t)" for d
    using assms by (simp add: like_null_fits)
  then show ?thesis
    by (simp add: get_id_def
        first_row_find [of _ _ "\<lambda>d. case doc_short_name d of None \<Rightarrow> False
                                    | Some t \<Rightarrow> like_text pat t"])
qed

lemma get_id_complex:
  assumes "SQLITE_MAX_LIKE_PATTERN_LENGTH < utf8_length pat" and "legal_documents db \<noteq> []"
  shows "get_id db (SelectByTitle pat pat) = Inl SqliteError"
proof -
  obtain d ds where "legal_documents db = d # ds"
    using assms(2) by (cases "legal_documents db") auto
  then show ?thesis
    using assms(1) by (simp add: get_id_def sql_or_def sql_like_def like_null_complex)
qed

lemma get_id_known: "get_id db q = Inr (Some i) \<Longrightarrow> i \<in> doc_id ` set (legal_documents db)"
  by (auto simp: get_id_def split: sum.splits dest: first_row_known)

lemma find_primary_key:
  assumes "distinct (map f rs)" and "d \<in> set rs"
  shows "find (\<lambda>r. f r = f d) rs = Some d"
  using assms by (induction rs) (auto simp: image_iff)

lemma resolve_known:
  "fst (resolveExistingStatuteId db inputId) = Inr (Some i)
     \<Longrightarrow> i \<in> doc_id ` set (legal_documents db)"
  by (auto simp: resolveExistingStatuteId_def Let_def split: sum.splits option.splits
      dest: get_id_known)

lemma resolve_fits:
  assumes "utf8_length (percent inputId) \<le> SQLITE_MAX_LIKE_PATTERN_LENGTH"
  shows "resolveExistingStatuteId db inputId =
     (case find (\<lambda>d. sql_eq (doc_id d) inputId) (legal_documents db) of
        Some d \<Rightarrow> (Inr (Some (doc_id d)), [SelectById inputId])
      | None \<Rightarrow>
        (case find (\<lambda>d. like_text (percent inputId) (doc_title d)
                      \<or> (case doc_title_en d of None \<Rightarrow> False
                         | Some t \<Rightarrow> like_text (percent inputId) t))
                (legal_documents db) of
           Some d \<Rightarrow>
             (Inr (Some (doc_id d)),
              [SelectById inputId, SelectByTitle (percent inputId) (percent inputId)])
         | None \<Rightarrow>
             (Inr (map_option doc_id
                (find (\<lambda>d. case doc_short_name d of None \<Rightarrow> False
                            | Some t \<Rightarrow> like_text (percent inputId) t)
                   (legal_documents db))),
              [SelectById inputId, SelectByTitle (percent inputId) (percent inputId),
               SelectByShortName (percent inputId)])))"
  unfolding resolveExistingStatuteId_def Let_def get_id_by_id get_id_by_title [OF assms]
    get_id_by_short_name [OF assms]
  by (cases "find (\<lambda>d. sql_eq (doc_id d) inputId) (legal_documents db)";
      cases "find (\<lambda>d. like_text (percent inputId) (doc_title d)
                      \<or> (case doc_title_en d of None \<Rightarrow> False
                         | Some t \<Rightarrow> like_text (percent inputId) t))
                (legal_documents db)") simp_all

text \<open>
  C7. \<^verbatim>\<open>resolveExistingStatuteId\<close> looks up in stages, and runs the statement of a stage
  only when the stage before found nothing: the identifier itself, then the two titles,
  then the short name. The two later stages are \<^verbatim>\<open>LIKE\<close> matches of the input between
  two \<^verbatim>\<open>%\<close>: a title or short name that contains the input is found, and so is one
  that the input describes with its own \<^verbatim>\<open>%\<close> and \<^verbatim>\<open>_\<close> or in another case of the
  Basic Latin letters. As long as that pattern is of at most 50000 bytes the function
  returns, the identifier of a stored document or the not-found value; and when a document
  has exactly the input as its identifier, that identifier is returned after the first
  statement alone.
\<close>

theorem staged_lookup:
  "(distinct (map (\<lambda>d. code_points (doc_id d)) (legal_documents db))
      \<and> (\<exists>d \<in> set (legal_documents db). doc_id d = inputId) \<longrightarrow>
      resolveExistingStatuteId db inputId = (Inr (Some inputId), [SelectById inputId]))
   \<and> (utf8_length (percent inputId) \<le> SQLITE_MAX_LIKE_PATTERN_LENGTH
      \<and> find (\<lambda>d. sql_eq (doc_id d) inputId) (legal_documents db) = None \<longrightarrow>
      resolveExistingStatuteId db inputId =
        (case find (\<lambda>d. like_text (percent inputId) (doc_title d)
                      \<or> (case doc_title_en d of None \<Rightarrow> False
                         | Some t \<Rightarrow> like_text (percent inputId) t))
                (legal_documents db) of
           Some d \<Rightarrow>
             (Inr (Some (doc_id d)),
              [SelectById inputId, SelectByTitle (percent inputId) (percent inputId)])
         | None \<Rightarrow>
             (Inr (map_option doc_id
                (find (\<lambda>d. case doc_short_name d of None \<Rightarrow> False
                            | Some t \<Rightarrow> like_text (percent inputId) t)
                   (legal_documents db))),
              [SelectById inputId, SelectByTitle (percent inputId) (percent inputId),
               SelectByShortName (percent inputId)])))
   \<and> (utf8_length (percent inputId) \<le> SQLITE_MAX_LIKE_PATTERN_LENGTH \<longrightarrow>
        (\<exists>r. fst (resolveExistingStatuteId db inputId) = Inr r))
   \<and> (\<forall>i. fst (resolveExistingStatuteId db inputId) = Inr (Some i) \<longrightarrow>
        i \<in> doc_id ` set (legal_documents db))
   \<and> (utf8_length (percent inputId) \<le> SQLITE_MAX_LIKE_PATTERN_LENGTH \<and> 0 \<notin> set inputId
      \<and> (\<exists>d \<in> set (legal_documents db).
            \<exists>t \<in> {doc_title d} \<union> set_option (doc_title_en d) \<union> set_option (doc_short_name d).
              0 \<notin> set t \<and> includes_str (code_points t) (code_points inputId)) \<longrightarrow>
        (\<exists>i. fst (resolveExistingStatuteId db inputId) = Inr (Some i)))"
proof (intro conjI impI allI)
  assume a: "distinct (map (\<lambda>d. code_points (doc_id d)) (legal_documents db))
      \<and> (\<exists>d \<in> set (legal_documents db). doc_id d = inputId)"
  then obtain d where d: "d \<in> set (legal_documents db)" "doc_id d = inputId"
    by blast
  have "find (\<lambda>r. code_points (doc_id r) = code_points (doc_id d)) (legal_documents db) = Some d"
    using a d(1) by (intro find_primary_key) simp_all
  then have "get_id db (SelectById inputId) = Inr (Some inputId)"
    using d(2) by (simp add: get_id_by_id sql_eq_def)
  then show "resolveExistingStatuteId db inputId = (Inr (Some inputId), [SelectById inputId])"
    by (simp add: resolveExistingStatuteId_def)
next
  assume a: "utf8_length (percent inputId) \<le> SQLITE_MAX_LIKE_PATTERN_LENGTH
      \<and> find (\<lambda>d. sql_eq (doc_id d) inputId) (legal_documents db) = None"
  then show "resolveExistingStatuteId db inputId =
        (case find (\<lambda>d. like_text (percent inputId) (doc_title d)
                      \<or> (case doc_title_en d of None \<Rightarrow> False
                         | Some t \<Rightarrow> like_text (percent inputId) t))
                (legal_documents db) of
           Some d \<Rightarrow>
             (Inr (Some (doc_id d)),
              [SelectById inputId, SelectByTitle (percent inputId) (percent inputId)])
         | None \<Rightarrow>
             (Inr (map_option doc_id
                (find (\<lambda>d. case doc_short_name d of None \<Rightarrow> False
                            | Some t \<Rightarrow> like_text (percent inputId) t)
                   (legal_documents db))),
              [SelectById inputId, SelectByTitle (percent inputId) (percent inputId),
               SelectByShortName (percent inputId)]))"
    by (simp add: resolve_fits)
next
  assume a: "utf8_length (percent inputId) \<le> SQLITE_MAX_LIKE_PATTERN_LENGTH"
  show "\<exists>r. fst (resolveExistingStatuteId db inputId) = Inr r"
    unfolding resolve_fits [OF a]
    by (cases "find (\<lambda>d. sql_eq (doc_id d) inputId) (legal_documents db)";
        cases "find (\<lambda>d. like_text (percent inputId) (doc_title d)
                      \<or> (case doc_title_en d of None \<Rightarrow> False
                         | Some t \<Rightarrow> like_text (percent inputId) t))
                (legal_documents db)") simp_all
next
  fix i
  assume "fst (resolveExistingStatuteId db inputId) = Inr (Some i)"
  then show "i \<in> doc_id ` set (legal_documents db)"
    by (rule resolve_known)
next
  assume a: "utf8_length (percent inputId) \<le> SQLITE_MAX_LIKE_PATTERN_LENGTH \<and> 0 \<notin> set inputId
      \<and> (\<exists>d \<in> set (legal_documents db).
            \<exists>t \<in> {doc_title d} \<union> set_option (doc_title_en d) \<union> set_option (doc_short_name d).
              0 \<notin> set t \<and> includes_str (code_points t) (code_points inputId))"
  then obtain d t where d: "d \<in> set (legal_documents db)"
    and tt: "t \<in> {doc_title d} \<union> set_option (doc_title_en d) \<union> set_option (doc_short_name d)"
    and z: "0 \<notin> set t"
    and inc: "includes_str (code_points t) (code_points inputId)"
    by blast
  have t: "t = doc_title d \<or> doc_title_en d = Some t \<or> doc_short_name d = Some t"
    using tt by (cases "doc_title_en d"; cases "doc_short_name d") auto
  have l: "like_text (percent inputId) t"
    using a z inc by (simp add: like_text_contains)
  let ?T = "\<lambda>d. like_text (percent inputId) (doc_title d)
                  \<or> (case doc_title_en d of None \<Rightarrow> False
                     | Some t \<Rightarrow> like_text (percent inputId) t)"
  let ?S = "\<lambda>d. case doc_short_name d of None \<Rightarrow> False
                 | Some t \<Rightarrow> like_text (percent inputId) t"
  have fits: "utf8_length (percent inputId) \<le> SQLITE_MAX_LIKE_PATTERN_LENGTH"
    using a by simp
  have "?T d \<or> ?S d"
    using t l by auto
  then have f: "find ?T (legal_documents db) \<noteq> None \<or> find ?S (legal_documents db) \<noteq> None"
    using d by (auto simp: find_None_iff)
  show "\<exists>i. fst (resolveExistingStatuteId db inputId) = Inr (Some i)"
  proof (cases "find (\<lambda>d. sql_eq (doc_id d) inputId) (legal_documents db)")
    case (Some e)
    then show ?thesis by (simp add: resolve_fits [OF fits])
  next
    case None
    show ?thesis
    proof (cases "find ?T (legal_documents db)")
      case (Some e)
      then show ?thesis using None by (simp add: resolve_fits [OF fits])
    next
      case n: None
      then obtain e where "find ?S (legal_documents db) = Some e"
        using f by auto
      then show ?thesis using None n by (simp add: resolve_fits [OF fits])
    qed
  qed
qed

lemmas resolver_eval = get_id_def store_eval

lemma resolve_by_id:
  "resolveExistingStatuteId fixture (str ''pdpa-be2562'')
     = (Inr (Some (str ''pdpa-be2562'')), [SelectById (str ''pdpa-be2562'')])"
  by (simp add: resolveExistingStatuteId_def resolver_eval)

lemma resolve_by_title:
  "resolveExistingStatuteId fixture (str ''Data Protection'')
     = (Inr (Some (str ''pdpa-be2562'')),
        [SelectById (str ''Data Protection''),
         SelectByTitle (percent (str ''Data Protection'')) (percent (str ''Data Protection''))])"
  by (simp add: resolveExistingStatuteId_def resolver_eval)

lemma resolve_by_short_name:
  "resolveExistingStatuteId fixture (str ''PDPA'')
     = (Inr (Some (str ''pdpa-be2562'')),
        [SelectById (str ''PDPA''),
         SelectByTitle (percent (str ''PDPA'')) (percent (str ''PDPA'')),
         SelectByShortName (percent (str ''PDPA''))])"
  by (simp add: resolveExistingStatuteId_def resolver_eval)

lemma resolve_not_found:
  "resolveExistingStatuteId fixture (str ''gdpr'')
     = (Inr None,
        [SelectById (str ''gdpr''),
         SelectByTitle (percent (str ''gdpr'')) (percent (str ''gdpr'')),
         SelectByShortName (percent (str ''gdpr''))])"
  by (simp add: resolveExistingStatuteId_def resolver_eval)


theorem staged_lookup_witness:
  "resolveExistingStatuteId fixture (str ''pdpa-be2562'')
     = (Inr (Some (str ''pdpa-be2562'')), [SelectById (str ''pdpa-be2562'')])
   \<and> resolveExistingStatuteId fixture (str ''Data Protection'')
     = (Inr (Some (str ''pdpa-be2562'')),
        [SelectById (str ''Data Protection''),
         SelectByTitle (percent (str ''Data Protection'')) (percent (str ''Data Protection''))])
   \<and> includes_str (code_points (str ''Personal Data Protection Act B.E. 2562 (2019)''))
        (code_points (str ''Data Protection''))
   \<and> resolveExistingStatuteId fixture (str ''PDPA'')
     = (Inr (Some (str ''pdpa-be2562'')),
        [SelectById (str ''PDPA''),
         SelectByTitle (percent (str ''PDPA'')) (percent (str ''PDPA'')),
         SelectByShortName (percent (str ''PDPA''))])
   \<and> resolveExistingStatuteId fixture (str ''gdpr'')
     = (Inr None,
        [SelectById (str ''gdpr''),
         SelectByTitle (percent (str ''gdpr'')) (percent (str ''gdpr'')),
         SelectByShortName (percent (str ''gdpr''))])
   \<and> str ''pdpa-be2562'' \<in> doc_id ` set (legal_documents fixture)"
proof -
  have k: "distinct (map (\<lambda>d. code_points (doc_id d)) (legal_documents fixture))
      \<and> (\<exists>d \<in> set (legal_documents fixture). doc_id d = str ''pdpa-be2562'')"
    by (simp add: fixture_def pdpa_document_def)
  have f1: "utf8_length (percent (str ''Data Protection'')) \<le> SQLITE_MAX_LIKE_PATTERN_LENGTH
      \<and> find (\<lambda>d. sql_eq (doc_id d) (str ''Data Protection'')) (legal_documents fixture) = None"
    by (simp add: store_eval)
  have f2: "utf8_length (percent (str ''PDPA'')) \<le> SQLITE_MAX_LIKE_PATTERN_LENGTH
      \<and> find (\<lambda>d. sql_eq (doc_id d) (str ''PDPA'')) (legal_documents fixture) = None"
    by (simp add: store_eval)
  have f3: "utf8_length (percent (str ''gdpr'')) \<le> SQLITE_MAX_LIKE_PATTERN_LENGTH
      \<and> find (\<lambda>d. sql_eq (doc_id d) (str ''gdpr'')) (legal_documents fixture) = None"
    by (simp add: store_eval)
  have s: "utf8_length (percent (str ''Data Protection'')) \<le> SQLITE_MAX_LIKE_PATTERN_LENGTH
      \<and> 0 \<notin> set (str ''Data Protection'')
      \<and> (\<exists>d \<in> set (legal_documents fixture).
            \<exists>t \<in> {doc_title d} \<union> set_option (doc_title_en d) \<union> set_option (doc_short_name d).
              0 \<notin> set t \<and> includes_str (code_points t) (code_points (str ''Data Protection'')))"
    by (simp add: store_eval)
  have i: "includes_str (code_points (str ''Personal Data Protection Act B.E. 2562 (2019)''))
        (code_points (str ''Data Protection''))"
    by (simp add: store_eval)
  note t1 = staged_lookup [of fixture "str ''pdpa-be2562''"]
  note t2 = staged_lookup [of fixture "str ''Data Protection''"]
  note t3 = staged_lookup [of fixture "str ''PDPA''"]
  note t4 = staged_lookup [of fixture "str ''gdpr''"]
  have r1: "resolveExistingStatuteId fixture (str ''pdpa-be2562'')
     = (Inr (Some (str ''pdpa-be2562'')), [SelectById (str ''pdpa-be2562'')])"
    using t1 k by blast
  have r2: "resolveExistingStatuteId fixture (str ''Data Protection'')
     = (Inr (Some (str ''pdpa-be2562'')),
        [SelectById (str ''Data Protection''),
         SelectByTitle (percent (str ''Data Protection'')) (percent (str ''Data Protection''))])"
    using t2 f1 by (simp add: store_eval)
  have r3: "resolveExistingStatuteId fixture (str ''PDPA'')
     = (Inr (Some (str ''pdpa-be2562'')),
        [SelectById (str ''PDPA''),
         SelectByTitle (percent (str ''PDPA'')) (percent (str ''PDPA'')),
         SelectByShortName (percent (str ''PDPA''))])"
    using t3 f2 by (simp add: store_eval)
  have r4: "resolveExistingStatuteId fixture (str ''gdpr'')
     = (Inr None,
        [SelectById (str ''gdpr''),
         SelectByTitle (percent (str ''gdpr'')) (percent (str ''gdpr'')),
         SelectByShortName (percent (str ''gdpr''))])"
    using t4 f3 by (simp add: store_eval)
  have r5: "str ''pdpa-be2562'' \<in> doc_id ` set (legal_documents fixture)"
    using t1 r1 by simp
  show ?thesis
    using r1 r2 r3 r4 r5 i by blast
qed

text \<open>
  The input \<^verbatim>\<open>p_pa 2019\<close> occurs in no title and in no short name of the fixture, and
  yet resolves to its document: the short name \<^verbatim>\<open>PDPA 2019\<close> is like
  \<^verbatim>\<open>%p_pa 2019%\<close>. And an input of 49999 letters makes a pattern of 50001 bytes, on
  which the second statement raises.
\<close>

theorem like_is_no_substring_match:
  "resolveExistingStatuteId fixture (str ''p_pa 2019'')
     = (Inr (Some (str ''pdpa-be2562'')),
        [SelectById (str ''p_pa 2019''),
         SelectByTitle (percent (str ''p_pa 2019'')) (percent (str ''p_pa 2019'')),
         SelectByShortName (percent (str ''p_pa 2019''))])
   \<and> legal_documents fixture = [pdpa_document]
   \<and> \<not> includes_str (doc_title pdpa_document) (str ''p_pa 2019'')
   \<and> doc_title_en pdpa_document = Some (str ''Personal Data Protection Act B.E. 2562 (2019)'')
   \<and> \<not> includes_str (str ''Personal Data Protection Act B.E. 2562 (2019)'') (str ''p_pa 2019'')
   \<and> doc_short_name pdpa_document = Some (str ''PDPA 2019'')
   \<and> \<not> includes_str (str ''PDPA 2019'') (str ''p_pa 2019'')
   \<and> resolveExistingStatuteId fixture (replicate 49999 0x61)
     = (Inl SqliteError,
        [SelectById (replicate 49999 0x61),
         SelectByTitle (percent (replicate 49999 0x61)) (percent (replicate 49999 0x61))])"
proof -
  have a: "resolveExistingStatuteId fixture (str ''p_pa 2019'')
     = (Inr (Some (str ''pdpa-be2562'')),
        [SelectById (str ''p_pa 2019''),
         SelectByTitle (percent (str ''p_pa 2019'')) (percent (str ''p_pa 2019'')),
         SelectByShortName (percent (str ''p_pa 2019''))])"
    by (simp add: resolveExistingStatuteId_def resolver_eval)
  have b: "legal_documents fixture = [pdpa_document]
   \<and> \<not> includes_str (doc_title pdpa_document) (str ''p_pa 2019'')
   \<and> doc_title_en pdpa_document = Some (str ''Personal Data Protection Act B.E. 2562 (2019)'')
   \<and> \<not> includes_str (str ''Personal Data Protection Act B.E. 2562 (2019)'') (str ''p_pa 2019'')
   \<and> doc_short_name pdpa_document = Some (str ''PDPA 2019'')
   \<and> \<not> includes_str (str ''PDPA 2019'') (str ''p_pa 2019'')"
    by (simp add: fixture_def pdpa_document_def str_Nil str_Cons)
  have "length (str ''pdpa-be2562'') \<noteq> length (replicate 49999 (0x61 :: nat))"
    by (simp add: str_def)
  then have ne: "str ''pdpa-be2562'' \<noteq> replicate 49999 (0x61 :: nat)"
    by metis
  have cp: "code_points (replicate 49999 0x61) = replicate 49999 0x61"
    by (rule code_points_ascii) simp
  have "utf8_length (percent (replicate 49999 0x61)) = length (percent (replicate 49999 (0x61 :: nat)))"
    by (rule utf8_length_ascii) (simp add: percent_def)
  then have long: "SQLITE_MAX_LIKE_PATTERN_LENGTH < utf8_length (percent (replicate 49999 0x61))"
    by (simp add: percent_def SQLITE_MAX_LIKE_PATTERN_LENGTH_def)
  have q1: "get_id fixture (SelectById (replicate 49999 0x61)) = Inr None"
    using ne cp
    by (simp add: get_id_def fixture_def pdpa_document_def sql_eq_def is_high_def is_low_def
        str_Nil str_Cons)
  have q2: "get_id fixture
              (SelectByTitle (percent (replicate 49999 0x61)) (percent (replicate 49999 0x61)))
            = Inl SqliteError"
    using long by (intro get_id_complex) (simp_all add: fixture_def)
  have c: "resolveExistingStatuteId fixture (replicate 49999 0x61)
     = (Inl SqliteError,
        [SelectById (replicate 49999 0x61),
         SelectByTitle (percent (replicate 49999 0x61)) (percent (replicate 49999 0x61))])"
    using q1 q2 by (simp add: resolveExistingStatuteId_def)
  show ?thesis
    using a b c by blast
qed
section \<open>The search query builder\<close>

lemma strip_comments_length: "length (strip_comments s) \<le> length s"
  by (induction s rule: strip_comments.induct) auto

lemma strip_comments_head: "x \<noteq> 0x2D \<Longrightarrow> \<exists>r. strip_comments (x # xs) = x # r"
  by (cases xs) auto

lemma strip_comments_clean: "\<not> has_comment (strip_comments s)"
proof (induction s rule: strip_comments.induct)
  case (1 x y xs)
  show ?case
  proof (cases "x = 0x2D \<and> y = 0x2D")
    case True
    with 1 show ?thesis by simp
  next
    case False
    note F = this
    show ?thesis
    proof (cases "y = 0x2D")
      case True
      with F have "x \<noteq> 0x2D" by simp
      then show ?thesis using 1 F
        by (cases "strip_comments (y # xs)") auto
    next
      case False
      then obtain r where "strip_comments (y # xs) = y # r"
        using strip_comments_head by blast
      then show ?thesis using 1 F False by auto
    qed
  qed
qed simp_all

lemma has_comment_snoc: "q \<noteq> 0x2D \<Longrightarrow> has_comment (s @ [q]) = has_comment s"
  by (induction s rule: has_comment.induct) auto

lemma strip_comments_set: "set (strip_comments s) \<subseteq> set s"
  by (induction s rule: strip_comments.induct) auto

lemma normalised_fits:
  "length t \<le> MAX_QUERY_LENGTH \<Longrightarrow>
     take MAX_QUERY_LENGTH (strip_comments (strip_semicolons (smart_quotes t)))
       = strip_comments (strip_semicolons (smart_quotes t))"
proof -
  assume a: "length t \<le> MAX_QUERY_LENGTH"
  have "length (strip_comments (strip_semicolons (smart_quotes t)))
          \<le> length (strip_semicolons (smart_quotes t))"
    by (rule strip_comments_length)
  also have "\<dots> \<le> length (smart_quotes t)"
    by (simp add: strip_semicolons_def)
  also have "\<dots> = length t"
    by (simp add: smart_quotes_def)
  finally show ?thesis using a by simp
qed

lemma explicit_nonempty: "EXPLICIT_FTS_SYNTAX s \<Longrightarrow> s \<noteq> []"
  by (auto simp: EXPLICIT_FTS_SYNTAX_def)

text \<open>
  Once the trimmed and capped input is detected as explicit syntax,
  \<^verbatim>\<open>buildFtsQueryVariants\<close> returns a primary variant and no fallback: that input with
  the smart quotes turned into U+0022, every semicolon and every \<^verbatim>\<open>--\<close> removed, and
  a closing quote appended when the count of quotes is odd. It holds an even number of
  double quotes, no semicolon, no comment sequence and no smart quote.
\<close>

lemma explicit_syntax_primary:
  assumes "EXPLICIT_FTS_SYNTAX (take MAX_QUERY_LENGTH (trim query))"
  shows "let n0 = strip_comments (strip_semicolons (smart_quotes
                    (take MAX_QUERY_LENGTH (trim query))));
             r = buildFtsQueryVariants LN query
         in r = \<lparr>primary = (if odd (quoteCount n0) then n0 @ [0x22] else n0), fallback = None\<rparr>
            \<and> even (quoteCount (primary r))
            \<and> 0x3B \<notin> set (primary r) \<and> \<not> has_comment (primary r)
            \<and> 0x201C \<notin> set (primary r) \<and> 0x201D \<notin> set (primary r)"
proof -
  let ?t = "take MAX_QUERY_LENGTH (trim query)"
  let ?n0 = "strip_comments (strip_semicolons (smart_quotes ?t))"
  let ?p = "if odd (quoteCount ?n0) then ?n0 @ [0x22] else ?n0"
  have len: "length ?t \<le> MAX_QUERY_LENGTH" by simp
  have ne: "?t \<noteq> []" using assms by (rule explicit_nonempty)
  have r: "buildFtsQueryVariants LN query = \<lparr>primary = ?p, fallback = None\<rparr>"
    using assms ne
    by (simp add: buildFtsQueryVariants_def Let_def normalised_fits [OF len]
        even_iff_mod_2_eq_zero)
  have ev: "even (quoteCount ?p)"
    by (simp add: quoteCount_def)
  have "set ?n0 \<subseteq> set (strip_semicolons (smart_quotes ?t))"
    by (rule strip_comments_set)
  then have in_n0: "\<And>x. x \<in> set ?n0 \<Longrightarrow> x \<noteq> 0x3B \<and> x \<noteq> 0x201C \<and> x \<noteq> 0x201D"
    by (auto simp: strip_semicolons_def smart_quotes_def split: if_splits)
  have semi: "0x3B \<notin> set ?p \<and> 0x201C \<notin> set ?p \<and> 0x201D \<notin> set ?p"
    using in_n0 by auto
  have cm: "\<not> has_comment ?p"
    using strip_comments_clean [of "strip_semicolons (smart_quotes ?t)"]
    by (simp add: has_comment_snoc)
  show ?thesis
    unfolding Let_def r using ev semi cm by simp
qed

lemmas fts_eval =
  buildFtsQueryVariants_def EXPLICIT_FTS_SYNTAX_def MAX_QUERY_LENGTH_def trim_def is_ws_def
  is_word_def is_alpha_def is_digit_def is_lower_def is_upper_def smart_quotes_def
  strip_semicolons_def quoteCount_def empty_phrase_def ascii_LN_def keeps_def is_high_def
  is_low_def str_Nil str_Cons

lemma explicit_syntax_example:
  "EXPLICIT_FTS_SYNTAX (take MAX_QUERY_LENGTH (trim ([0x22] @ str ''personal; data--'')))
   \<and> buildFtsQueryVariants ascii_LN ([0x22] @ str ''personal; data--'')
       = \<lparr>primary = [0x22] @ str ''personal data'' @ [0x22], fallback = None\<rparr>"
  by (simp add: fts_eval)

text \<open>A primary variant built from tokens ends in the wildcard.\<close>

lemma quoted_tokens_end:
  "tokens \<noteq> [] \<Longrightarrow>
     \<exists>r. join sep (map (\<lambda>t. [0x22] @ t @ [0x22, 0x2A]) tokens) = r @ [0x2A]"
proof (induction tokens rule: induct_list012)
  case 1
  then show ?case by simp
next
  case (2 t)
  have "join sep (map (\<lambda>t. [0x22] @ t @ [0x22, 0x2A]) [t]) = ([0x22] @ t @ [0x22]) @ [0x2A]"
    by simp
  then show ?case by blast
next
  case (3 t u us)
  then obtain r where "join sep (map (\<lambda>t. [0x22] @ t @ [0x22, 0x2A]) (u # us)) = r @ [0x2A]"
    by auto
  then have "join sep (map (\<lambda>t. [0x22] @ t @ [0x22, 0x2A]) (t # u # us))
               = ([0x22] @ t @ [0x22, 0x2A] @ sep @ r) @ [0x2A]"
    by simp
  then show ?case by blast
qed

text \<open>
  C8. The claim counts every input that holds a quote character as explicit syntax, the
  smart quotes with the plain one: the mode it describes turns them into U+0022. The
  detection pattern of the source lists U+0022 alone, three times over, so an input whose
  only quotes are smart ones is not detected and is handled as natural language:
  \<^verbatim>\<open>personal data\<close> between U+201C and U+201D comes back as two quoted tokens with a
  fallback, and whatever the Unicode tables say, not as the one phrase
  \<^verbatim>\<open>"personal data"\<close> that the claim describes.
\<close>

theorem smart_quotes_not_detected:
  "\<not> EXPLICIT_FTS_SYNTAX
        (take MAX_QUERY_LENGTH (trim ([0x201C] @ str ''personal data'' @ [0x201D])))
   \<and> buildFtsQueryVariants ascii_LN ([0x201C] @ str ''personal data'' @ [0x201D])
       = \<lparr>primary = [0x22] @ str ''personal'' @ [0x22, 0x2A, 0x20, 0x22] @ str ''data''
                     @ [0x22, 0x2A],
          fallback = Some (str ''personal* OR data*'')\<rparr>
   \<and> strip_comments (strip_semicolons (smart_quotes
         (take MAX_QUERY_LENGTH (trim ([0x201C] @ str ''personal data'' @ [0x201D])))))
       = [0x22] @ str ''personal data'' @ [0x22]
   \<and> primary (buildFtsQueryVariants LN ([0x201C] @ str ''personal data'' @ [0x201D]))
       \<noteq> [0x22] @ str ''personal data'' @ [0x22]"
proof -
  let ?q = "[0x201C] @ str ''personal data'' @ [0x201D]"
  let ?f = "\<lambda>t. [0x22] @ t @ [0x22, 0x2A]"
  have a: "\<not> EXPLICIT_FTS_SYNTAX (take MAX_QUERY_LENGTH (trim ?q))"
    by (simp add: fts_eval)
  have b: "buildFtsQueryVariants ascii_LN ?q
       = \<lparr>primary = [0x22] @ str ''personal'' @ [0x22, 0x2A, 0x20, 0x22] @ str ''data''
                     @ [0x22, 0x2A],
          fallback = Some (str ''personal* OR data*'')\<rparr>"
    by (simp add: fts_eval)
  have c: "strip_comments (strip_semicolons (smart_quotes (take MAX_QUERY_LENGTH (trim ?q))))
       = [0x22] @ str ''personal data'' @ [0x22]"
    by (simp add: fts_eval)
  define tokens where
    "tokens = filter (\<lambda>t. length t > 0)
       (map (sanitiseToken LN)
          (filter (\<lambda>t. length t > 0) (split_ws (take MAX_QUERY_LENGTH (trim ?q)))))"
  have p: "primary (buildFtsQueryVariants LN ?q)
             = (if tokens = [] then empty_phrase else join (str '' '') (map ?f tokens))"
    using a unfolding tokens_def
    by (simp add: buildFtsQueryVariants_def Let_def MAX_QUERY_LENGTH_def trim_def is_ws_def
        str_Nil str_Cons del: sanitiseToken.simps)
  have d: "primary (buildFtsQueryVariants LN ?q) \<noteq> [0x22] @ str ''personal data'' @ [0x22]"
  proof (cases "tokens = []")
    case True
    then show ?thesis
      unfolding p by (simp add: empty_phrase_def str_Nil str_Cons)
  next
    case False
    then obtain r where "join (str '' '') (map ?f tokens) = r @ [0x2A]"
      using quoted_tokens_end by blast
    then have "last (primary (buildFtsQueryVariants LN ?q)) = 0x2A"
      unfolding p using False by simp
    moreover have "last ([0x22] @ str ''personal data'' @ [0x22]) = (0x22 :: nat)"
      by simp
    ultimately show ?thesis
      by (metis numeral_eq_iff num.distinct semiring_norm)
  qed
  show ?thesis
    using a b c d by blast
qed




text \<open>What the two steps of the tokeniser do: the pieces hold no white space and together
  are the input without its white space; a token without surrogates keeps exactly its
  letters, numbers, hyphens and underscores.\<close>

lemma split_ws_no_ws: "t \<in> set (split_ws s) \<Longrightarrow> x \<in> set t \<Longrightarrow> \<not> is_ws x"
proof (induction s arbitrary: t rule: split_ws.induct)
  case 1
  then show ?case by simp
next
  case (2 y ys)
  show ?case
  proof (cases "is_ws y")
    case True
    with 2 show ?thesis by auto
  next
    case False
    with 2 show ?thesis
      by (cases "split_ws ys") (fastforce split: if_splits)+
  qed
qed

lemma split_ws_concat: "concat (split_ws s) = filter (\<lambda>x. \<not> is_ws x) s"
proof (induction s rule: split_ws.induct)
  case 1
  then show ?case by simp
next
  case (2 y ys)
  show ?case
  proof (cases "is_ws y")
    case True
    have "filter (\<lambda>x. \<not> is_ws x) (dropWhile is_ws ys) = filter (\<lambda>x. \<not> is_ws x) ys"
      by (induction ys) auto
    with True 2 show ?thesis by simp
  next
    case False
    with 2 show ?thesis
      by (cases "split_ws ys") auto
  qed
qed

lemma sanitiseToken_bmp:
  "\<forall>x \<in> set t. \<not> is_high x \<Longrightarrow> sanitiseToken LN t = filter (keeps LN) t"
  by (induction LN t rule: sanitiseToken.induct) auto



section \<open>The matcher computes the matching relation\<close>

lemma ms_sound: "(s', c') \<in> set (ms r s c) \<Longrightarrow> \<exists>u. s = u @ s' \<and> mt r u c c'"
proof (induction r s c arbitrary: s' c' rule: ms.induct)
  case (1 s c)
  then show ?case by (auto simp: ms.simps(1) intro: mt.intros)
next
  case (2 P s c)
  then show ?case by (cases s) (auto simp: ms.simps(2) intro: mt.intros split: if_splits)
next
  case (3 a b s c)
  from 3(3) obtain s1 c1 where m1: "(s1, c1) \<in> set (ms a s c)" and m2: "(s', c') \<in> set (ms b s1 c1)"
    by (auto simp: ms.simps(3))
  from 3(1) [OF m1] obtain u where u: "s = u @ s1" "mt a u c c1" by blast
  from 3(2) [OF m1 refl m2] obtain v where v: "s1 = v @ s'" "mt b v c1 c'" by blast
  from u v show ?case by (auto intro: mt.intros)
next
  case (4 a b s c)
  from 4(3) have "(s', c') \<in> set (ms a s c) \<or> (s', c') \<in> set (ms b s c)"
    by (auto simp: ms.simps(4))
  then show ?case
    using 4(1) 4(2) by (meson mt_AltL mt_AltR)
next
  case (5 g a s c)
  have "set (ms (Star g a) s c) =
          insert (s, c) (\<Union>(s1, c1) \<in> set (ms a s c).
             if length s1 < length s then set (ms (Star g a) s1 c1) else {})"
    unfolding ms.simps(5) [of g a s c] Let_def
    by (cases g) (auto split: if_splits)
  with 5(3) consider "(s', c') = (s, c)"
    | s1 c1 where "(s1, c1) \<in> set (ms a s c)" "length s1 < length s" "(s', c') \<in> set (ms (Star g a) s1 c1)"
    by (auto split: if_splits)
  then show ?case
  proof cases
    case 1
    then show ?thesis by (auto intro: mt.intros)
  next
    case 2
    from 5(1) [OF 2(1)] obtain u where u: "s = u @ s1" "mt a u c c1" by blast
    from 5(2) [OF 2(1) refl 2(2) 2(3)] obtain v where v: "s1 = v @ s'" "mt (Star g a) v c1 c'" by blast
    from u 2(2) have "u \<noteq> []" by auto
    with u v show ?thesis by (auto intro: mt.intros)
  qed
next
  case (6 n a s c)
  from 6(2) obtain c1 where m: "(s', c1) \<in> set (ms a s c)" and c': "c' = (n, take (length s - length s') s) # c1"
    by (auto simp: ms.simps(6))
  from 6(1) [OF m] obtain u where u: "s = u @ s'" "mt a u c c1" by blast
  with c' show ?case by (auto intro: mt.intros)
qed

lemma ms_complete: "mt r u c c' \<Longrightarrow> (s', c') \<in> set (ms r (u @ s') c)"
proof (induction arbitrary: s' rule: mt.induct)
  case (mt_StarStep a u c c1 g v c2)
  have 1: "(v @ s', c1) \<in> set (ms a (u @ v @ s') c)"
    using mt_StarStep.IH(1) [of "v @ s'"] by simp
  have 2: "(s', c2) \<in> set (ms (Star g a) (v @ s') c1)"
    by (rule mt_StarStep.IH(2))
  have 3: "length (v @ s') < length (u @ v @ s')"
    using mt_StarStep.hyps(2) by simp
  have "(s', c2) \<in> set (concat (map (\<lambda>(s1, c1). if length s1 < length (u @ v @ s')
                     then ms (Star g a) s1 c1 else []) (ms a (u @ v @ s') c)))"
    using 1 2 3 by (auto intro!: bexI [of _ "(v @ s', c1)"])
  then have "(s', c2) \<in> set (ms (Star g a) (u @ v @ s') c)"
    unfolding ms.simps(5) [of g a "u @ v @ s'" c] Let_def by (cases g) auto
  then show ?case by simp
next
  case (mt_Seq a u c c1 b v c2)
  have 1: "(v @ s', c1) \<in> set (ms a (u @ v @ s') c)"
    using mt_Seq.IH(1) [of "v @ s'"] by simp
  have 2: "(s', c2) \<in> set (ms b (v @ s') c1)"
    by (rule mt_Seq.IH(2))
  show ?case using 1 2 by (auto simp: ms.simps(3) intro!: bexI [of _ "(v @ s', c1)"])
next
  case (mt_StarNil g a c)
  show ?case
    unfolding ms.simps(5) [of g a "[] @ s'" c] Let_def by (cases g) auto
next
  case (mt_Grp a u c c1 n)
  then show ?case
    by (auto simp: ms.simps(6) intro!: image_eqI [of _ _ "(s', c1)"])
qed (auto simp: ms.simps(1,2,4))

theorem ms_iff: "(s', c') \<in> set (ms r s c) \<longleftrightarrow> (\<exists>u. s = u @ s' \<and> mt r u c c')"
  using ms_sound ms_complete by blast

lemma find_SomeD: "find P xs = Some x \<Longrightarrow> x \<in> set xs \<and> P x"
  by (induction xs) (auto split: if_splits)

lemma re_match_Some: "re_match r s = Some m \<Longrightarrow> mt r s [] m"
proof -
  assume "re_match r s = Some m"
  then obtain s' where f: "find (\<lambda>(s', c). s' = []) (ms r s []) = Some (s', m)"
    by (auto simp: re_match_def)
  from find_SomeD [OF f] have "s' = []" and "(s', m) \<in> set (ms r s [])"
    by auto
  then show ?thesis using ms_sound by fastforce
qed

lemma re_match_None: "re_match r s = None \<longleftrightarrow> (\<forall>m. \<not> mt r s [] m)"
proof
  assume "re_match r s = None"
  then have n: "\<forall>x \<in> set (ms r s []). fst x \<noteq> []"
    by (auto simp: re_match_def find_None_iff)
  show "\<forall>m. \<not> mt r s [] m"
  proof (intro allI notI)
    fix m assume "mt r s [] m"
    then have "([], m) \<in> set (ms r (s @ []) [])" by (rule ms_complete)
    with n show False by auto
  qed
next
  assume a: "\<forall>m. \<not> mt r s [] m"
  have "\<And>s' m. (s', m) \<in> set (ms r s []) \<Longrightarrow> s' \<noteq> []"
  proof
    fix s' m assume "(s', m) \<in> set (ms r s [])" "s' = []"
    then have "mt r s [] m" using ms_sound by fastforce
    with a show False by blast
  qed
  then show "re_match r s = None"
    by (auto simp: re_match_def find_None_iff)
qed

text \<open>When every way to match gives the same captures, that is what re_match returns.\<close>

lemma re_match_unique:
  assumes "mt r s [] m" and "\<And>m'. mt r s [] m' \<Longrightarrow> m' = m"
  shows "re_match r s = Some m"
proof (cases "re_match r s")
  case None
  with assms(1) show ?thesis by (simp add: re_match_None)
next
  case (Some m')
  then have "mt r s [] m'" by (rule re_match_Some)
  with assms(2) Some show ?thesis by simp
qed


section \<open>Properties of every match\<close>

lemma mt_units: "mt r u c c' \<Longrightarrow> re_units Q r \<Longrightarrow> list_all Q u"
  by (induction rule: mt.induct) auto

lemma mt_frame: "mt r u c c' \<Longrightarrow> n \<notin> groups r \<Longrightarrow> map_of c' n = map_of c n"
  by (induction rule: mt.induct) auto

lemma mt_nocap: "mt r u c c' \<Longrightarrow> groups r = {} \<Longrightarrow> c' = c"
  by (induction rule: mt.induct) auto

lemma mt_nocap_any: "mt r u c c' \<Longrightarrow> groups r = {} \<Longrightarrow> mt r u d d"
proof (induction arbitrary: d rule: mt.induct)
  case (mt_Eps c)
  show ?case by (rule mt.mt_Eps)
next
  case (mt_Cls P x c)
  then show ?case by (simp add: mt.mt_Cls)
next
  case (mt_Seq a u c c1 b v c2)
  then have "mt a u d d" and "mt b v d d" by simp_all
  then show ?case by (rule mt.mt_Seq)
next
  case (mt_AltL a u c c1 b)
  then have "mt a u d d" by simp
  then show ?case by (rule mt.mt_AltL)
next
  case (mt_AltR b u c c1 a)
  then have "mt b u d d" by simp
  then show ?case by (rule mt.mt_AltR)
next
  case (mt_StarNil g a c)
  show ?case by (rule mt.mt_StarNil)
next
  case (mt_StarStep a u c c1 g v c2)
  then have "mt a u d d" and "u \<noteq> []" and "mt (Star g a) v d d" by simp_all
  then show ?case by (rule mt.mt_StarStep)
next
  case (mt_Grp a u c c1 n)
  then show ?case by simp
qed

lemma mt_grp_holds:
  "mt r u c c' \<Longrightarrow> grp_holds n Q r \<Longrightarrow> \<forall>v. map_of c n = Some v \<longrightarrow> Q v
     \<Longrightarrow> \<forall>v. map_of c' n = Some v \<longrightarrow> Q v"
proof (induction rule: mt.induct)
  case (mt_Seq a u c c1 b v c2)
  from mt_Seq.prems(1) have ga: "grp_holds n Q a" and gb: "grp_holds n Q b" by simp_all
  from mt_Seq.IH(1) [OF ga mt_Seq.prems(2)] have "\<forall>v. map_of c1 n = Some v \<longrightarrow> Q v" .
  from mt_Seq.IH(2) [OF gb this] show ?case .
next
  case (mt_AltL a u c c1 b)
  from mt_AltL.prems(1) have ga: "grp_holds n Q a" by simp
  from mt_AltL.IH [OF ga mt_AltL.prems(2)] show ?case .
next
  case (mt_AltR b u c c1 a)
  from mt_AltR.prems(1) have gb: "grp_holds n Q b" by simp
  from mt_AltR.IH [OF gb mt_AltR.prems(2)] show ?case .
next
  case (mt_StarStep a u c c1 g v c2)
  from mt_StarStep.prems(1) have ga: "grp_holds n Q a" by simp
  from mt_StarStep.IH(1) [OF ga mt_StarStep.prems(2)]
  have "\<forall>v. map_of c1 n = Some v \<longrightarrow> Q v" .
  from mt_StarStep.IH(2) [OF mt_StarStep.prems(1) this] show ?case .
next
  case (mt_Grp a u c c1 k)
  from mt_Grp.prems(1) have ga: "grp_holds n Q a"
    and gk: "k = n \<longrightarrow> (\<forall>u c c'. mt a u c c' \<longrightarrow> Q u)" by simp_all
  from mt_Grp.IH [OF ga mt_Grp.prems(2)] have ih: "\<forall>v. map_of c1 n = Some v \<longrightarrow> Q v" .
  show ?case
  proof (cases "k = n")
    case True
    with gk mt_Grp.hyps have "Q u" by blast
    with True show ?thesis by simp
  next
    case False
    with ih show ?thesis by simp
  qed
qed (assumption+)

lemma mt_blocked:
  "mt r u c c' \<Longrightarrow> list_all Q u \<Longrightarrow> grp_blocked n Q r \<Longrightarrow> map_of c' n = map_of c n"
  by (induction rule: mt.induct) (auto split: if_splits)

inductive_simps mt_Eps_iff: "mt Eps u c c'"
inductive_simps mt_Cls_iff: "mt (Cls P) u c c'"
inductive_simps mt_Alt_iff: "mt (Alt a b) u c c'"

inductive_simps mt_Seq_iff: "mt (Seq a b) u c c'"
inductive_simps mt_Grp_iff: "mt (Grp n a) u c c'"

section \<open>What the building blocks of the grammars match\<close>

lemma mt_Seq_Cls:
  "mt (Seq (Cls P) b) u c c' \<longleftrightarrow> (\<exists>x xs. u = x # xs \<and> P x \<and> mt b xs c c')"
proof
  assume "mt (Seq (Cls P) b) u c c'"
  then obtain u1 u2 c1 where "u = u1 @ u2" "mt (Cls P) u1 c c1" "mt b u2 c1 c'"
    unfolding mt_Seq_iff by blast
  then show "\<exists>x xs. u = x # xs \<and> P x \<and> mt b xs c c'"
    by (auto simp: mt_Cls_iff)
next
  assume "\<exists>x xs. u = x # xs \<and> P x \<and> mt b xs c c'"
  then obtain x xs where u: "u = x # xs" and "P x" and b: "mt b xs c c'" by blast
  then have "mt (Cls P) [x] c c" by (auto intro: mt_Cls)
  from mt_Seq [OF this b] u show "mt (Seq (Cls P) b) u c c'" by simp
qed

lemma mt_star_cls: "mt (Star g (Cls P)) u c c' \<longleftrightarrow> list_all P u \<and> c' = c"
proof
  assume "mt (Star g (Cls P)) u c c'"
  then show "list_all P u \<and> c' = c"
    by (induction "Star g (Cls P)" u c c' rule: mt.induct) (auto simp: mt_Cls_iff)
next
  assume "list_all P u \<and> c' = c"
  then have "list_all P u" and c: "c' = c" by auto
  then have "mt (Star g (Cls P)) u c c"
  proof (induction u)
    case Nil
    show ?case by (rule mt_StarNil)
  next
    case (Cons x xs)
    then have "mt (Cls P) [x] c c" and "mt (Star g (Cls P)) xs c c"
      by (auto intro: mt_Cls)
    then have "mt (Star g (Cls P)) ([x] @ xs) c c"
      by (intro mt_StarStep) auto
    then show ?case by simp
  qed
  with c show "mt (Star g (Cls P)) u c c'" by simp
qed

lemma mt_plus_cls: "mt (plus (Cls P)) u c c' \<longleftrightarrow> u \<noteq> [] \<and> list_all P u \<and> c' = c"
  unfolding plus_def mt_Seq_Cls mt_star_cls by (cases u) auto

lemma mt_plus_lazy_cls:
  "mt (plus_lazy (Cls P)) u c c' \<longleftrightarrow> u \<noteq> [] \<and> list_all P u \<and> c' = c"
  unfolding plus_lazy_def mt_Seq_Cls mt_star_cls by (cases u) auto

lemma mt_opt: "mt (opt r) u c c' \<longleftrightarrow> mt r u c c' \<or> (u = [] \<and> c' = c)"
  unfolding opt_def mt_Alt_iff mt_Eps_iff by blast

lemma mt_chr: "mt (chr k) u c c' \<longleftrightarrow> u = [k] \<and> c' = c"
  unfolding chr_def mt_Cls_iff by blast

lemma mt_seqs_Nil: "mt (seqs []) u c c' \<longleftrightarrow> u = [] \<and> c' = c"
  unfolding seqs_def by (simp add: mt_Eps_iff)

lemma mt_seqs_Cons:
  "mt (seqs (a # rs)) u c c' \<longleftrightarrow>
     (\<exists>u1 u2 c1. u = u1 @ u2 \<and> mt a u1 c c1 \<and> mt (seqs rs) u2 c1 c')"
  unfolding seqs_def by (simp add: mt_Seq_iff) blast

lemma mt_seqs_chr:
  "mt (seqs (chr k # rs)) u c c' \<longleftrightarrow> (\<exists>xs. u = k # xs \<and> mt (seqs rs) xs c c')"
  unfolding seqs_def chr_def by (simp add: mt_Seq_Cls)

lemma mt_seqs_chr_i:
  "mt (seqs (chr_i k # rs)) u c c' \<longleftrightarrow>
     (\<exists>x xs. u = x # xs \<and> lower_unit x = lower_unit k \<and> mt (seqs rs) xs c c')"
  unfolding seqs_def chr_i_def by (simp add: mt_Seq_Cls)

lemma mt_lit: "mt (lit s) u c c' \<longleftrightarrow> u = s \<and> c' = c"
  unfolding lit_def
proof (induction s arbitrary: u)
  case Nil
  show ?case by (simp add: mt_seqs_Nil)
next
  case (Cons x xs)
  show ?case by (simp add: mt_seqs_chr Cons)
qed

lemma mt_lit_i:
  "mt (lit_i s) u c c' \<longleftrightarrow> map lower_unit u = map lower_unit s \<and> c' = c"
  unfolding lit_i_def
proof (induction s arbitrary: u)
  case Nil
  show ?case by (simp add: mt_seqs_Nil)
next
  case (Cons x xs)
  show ?case by (cases u) (auto simp add: mt_seqs_chr_i Cons)
qed

lemma mt_digit4:
  "mt digit4 u c c' \<longleftrightarrow> length u = 4 \<and> list_all is_digit u \<and> c' = c"
proof -
  have l: "length u = 4 \<longleftrightarrow> (\<exists>a b d e. u = [a, b, d, e])"
    by (auto simp: length_Suc_conv numeral_eq_Suc)
  have "mt digit4 u c c' \<longleftrightarrow>
          (\<exists>a b d e. u = [a, b, d, e] \<and> is_digit a \<and> is_digit b \<and> is_digit d \<and> is_digit e
                      \<and> c' = c)"
    unfolding digit4_def digit_def seqs_def
    by (simp add: mt_Seq_Cls mt_Eps_iff) blast
  then show ?thesis unfolding l by auto
qed

section \<open>What the groups of the grammars capture\<close>

lemma grp_holds_no_groups: "groups r = {} \<Longrightarrow> grp_holds n Q r"
  by (induction r) auto

lemmas block_defs =
  seqs_def plus_lazy_def plus_def opt_def chr_def chr_i_def lit_def lit_i_def ws_def
  digit4_def digit_def MATRA_def PHO_SO_def s_dot_def marker_en_def marker_any_def
  be_marker_def ce_in_parens_def

lemma pinpoint_units: "re_units is_pin_unit PINPOINT"
  by (simp add: PINPOINT_def block_defs is_pin_unit_def)

lemma pinpoint_groups: "groups PINPOINT = {}"
  by (simp add: PINPOINT_def block_defs)

lemma pinpoint_pin_units: "mt PINPOINT u c c' \<Longrightarrow> list_all is_pin_unit u"
  using mt_units pinpoint_units by blast

lemma cap_holds:
  assumes "re_match G t = Some m" and "grp_holds n Q G" and "Q []"
  shows "Q (cap m n)"
proof -
  from assms(1) have "mt G t [] m" by (rule re_match_Some)
  from mt_grp_holds [OF this assms(2)] have "\<forall>v. map_of m n = Some v \<longrightarrow> Q v" by simp
  then show ?thesis using assms(3) by (auto simp: cap_def grp_def split: option.splits)
qed

lemma pin_holds: "grp_holds n (list_all is_pin_unit) (Grp k PINPOINT)"
  using pinpoint_pin_units by (auto simp: grp_holds_no_groups pinpoint_groups)

lemma title_holds: "grp_holds n Q (Grp k (plus_lazy (Cls is_dot))) \<longleftrightarrow> (k = n \<longrightarrow> (\<forall>u. u \<noteq> [] \<and> list_all is_dot u \<longrightarrow> Q u))"
  by (auto simp: mt_plus_lazy_cls) (simp_all add: plus_lazy_def)

lemma pin_holds_iff:
  "grp_holds n Q (Grp k PINPOINT) \<longleftrightarrow> (k = n \<longrightarrow> (\<forall>u c c'. mt PINPOINT u c c' \<longrightarrow> Q u))"
  by (simp add: grp_holds_no_groups pinpoint_groups)

lemma digit4_holds_iff:
  "grp_holds n Q (Grp k digit4) \<longleftrightarrow> (k = n \<longrightarrow> (\<forall>u. length u = 4 \<and> list_all is_digit u \<longrightarrow> Q u))"
  by (auto simp: mt_digit4) (simp_all add: block_defs)

lemmas holds_simps = pin_holds_iff digit4_holds_iff title_holds

lemma thai_pin: "grp_holds 1 (list_all is_pin_unit) THAI_CITATION"
  using pinpoint_pin_units
  by (simp add: THAI_CITATION_def seqs_def holds_simps) (simp add: block_defs grp_holds_no_groups pinpoint_groups str_Nil str_Cons)

lemma english_be_pin: "grp_holds 1 (list_all is_pin_unit) ENGLISH_BE_CITATION"
  using pinpoint_pin_units
  by (simp add: ENGLISH_BE_CITATION_def seqs_def holds_simps) (simp add: block_defs grp_holds_no_groups pinpoint_groups str_Nil str_Cons)

lemma english_ce_pin: "grp_holds 1 (list_all is_pin_unit) ENGLISH_CE_CITATION"
  using pinpoint_pin_units
  by (simp add: ENGLISH_CE_CITATION_def seqs_def holds_simps) (simp add: block_defs grp_holds_no_groups pinpoint_groups str_Nil str_Cons)

lemma short_pin: "grp_holds 1 (list_all is_pin_unit) SHORT_CITATION"
  using pinpoint_pin_units
  by (simp add: SHORT_CITATION_def seqs_def holds_simps) (simp add: block_defs grp_holds_no_groups pinpoint_groups str_Nil str_Cons)

lemma trailing_be_pin: "grp_holds 3 (list_all is_pin_unit) TRAILING_SECTION_BE"
  using pinpoint_pin_units
  by (simp add: TRAILING_SECTION_BE_def seqs_def holds_simps) (simp add: block_defs grp_holds_no_groups pinpoint_groups str_Nil str_Cons)

lemma trailing_ce_pin: "grp_holds 3 (list_all is_pin_unit) TRAILING_SECTION_CE"
  using pinpoint_pin_units
  by (simp add: TRAILING_SECTION_CE_def seqs_def holds_simps) (simp add: block_defs grp_holds_no_groups pinpoint_groups str_Nil str_Cons)

lemma section_ref_blocked: "grp_blocked 3 is_pin_unit SECTION_REF"
  by (auto simp: SECTION_REF_def block_defs mt_Cls_iff is_pin_unit_def is_lower_def
      is_digit_def)

lemma parseSection_paragraph:
  assumes "list_all is_pin_unit sectionStr"
  shows "paragraph_f (parseSection sectionStr ttl beYear ceYear ty) = None"
proof (cases "re_match SECTION_REF sectionStr")
  case None
  then show ?thesis by (simp add: parseSection_def no_citation_def)
next
  case (Some m)
  then have "mt SECTION_REF sectionStr [] m" by (rule re_match_Some)
  from mt_blocked [OF this assms section_ref_blocked] have "grp m 3 = None"
    by (simp add: grp_def)
  with Some show ?thesis by (simp add: parseSection_def or_undefined_def)
qed

lemma pin_empty: "list_all is_pin_unit []"
  by simp

section \<open>The paragraph of a parsed citation\<close>

lemma parse_letter_suffix:
  "parseCitation (str ''Section 3(1)(a), Personal Data Protection Act B.E. 2562'') =
     Inr (no_citation\<lparr>error_f := Some (str ''Could not parse Thai citation: '' @ [0x22]
            @ str ''Section 3(1)(a), Personal Data Protection Act B.E. 2562'' @ [0x22])\<rparr>)"
  by (simp add: citation_eval)

text \<open>
  C10. No citation that \<^verbatim>\<open>parseCitation\<close> returns has its \<^verbatim>\<open>paragraph\<close> set: the
  pinpoint a grammar captures is made of digits, slashes and parentheses, and the
  sub-grammar takes a paragraph only from a lower-case letter. A pinpoint with a letter
  suffix, as in \<^verbatim>\<open>Section 3(1)(a), Personal Data Protection Act B.E. 2562\<close>, makes the
  grammar fail: that input is not parsed at all.
\<close>

theorem paragraph_never_set:
  assumes "parseCitation s = Inr p"
  shows "paragraph_f p = None
         \<and> parseCitation (str ''Section 3(1)(a), Personal Data Protection Act B.E. 2562'') =
             Inr (no_citation\<lparr>error_f := Some (str ''Could not parse Thai citation: '' @ [0x22]
               @ str ''Section 3(1)(a), Personal Data Protection Act B.E. 2562'' @ [0x22])\<rparr>)"
proof -
  have "paragraph_f p = None"
    using assms
      cap_holds [OF _ thai_pin pin_empty] cap_holds [OF _ english_be_pin pin_empty]
      cap_holds [OF _ english_ce_pin pin_empty] cap_holds [OF _ short_pin pin_empty]
      cap_holds [OF _ trailing_be_pin pin_empty] cap_holds [OF _ trailing_ce_pin pin_empty]
    by (auto simp: parseCitation_def Let_def year_pair_def parseSection_paragraph
        no_citation_def split: option.splits property.splits)
  then show ?thesis using parse_letter_suffix by simp
qed

lemma parse_subsection:
  "parseCitation (str ''Section 3(1), PDPA B.E. 2562'') =
     Inr (no_citation\<lparr>valid := True, type_f := Statute, title := Some (str ''PDPA''),
            be_year := Some 2562, ce_year := Some 2019, section_f := Some (str ''3''),
            subsection_f := Some (str ''1'')\<rparr>)"
  by (simp add: citation_eval)

theorem paragraph_never_set_witness:
  "parseCitation (str ''Section 3(1), PDPA B.E. 2562'') =
     Inr (no_citation\<lparr>valid := True, type_f := Statute, title := Some (str ''PDPA''),
            be_year := Some 2562, ce_year := Some 2019, section_f := Some (str ''3''),
            subsection_f := Some (str ''1'')\<rparr>)
   \<and> paragraph_f (no_citation\<lparr>valid := True, type_f := Statute, title := Some (str ''PDPA''),
            be_year := Some 2562, ce_year := Some 2019, section_f := Some (str ''3''),
            subsection_f := Some (str ''1'')\<rparr>) = None"
  using parse_subsection paragraph_never_set [OF parse_subsection] by simp

section \<open>Bare years\<close>

lemma parseInt_snoc: "parseInt (u @ [d]) = 10 * parseInt u + (int d - 0x30)"
  by (simp add: parseInt_def)

lemma parseInt_range: "list_all is_digit u \<Longrightarrow> 0 \<le> parseInt u \<and> parseInt u < 10 ^ length u"
proof (induction u rule: rev_induct)
  case Nil
  show ?case by (simp add: parseInt_def)
next
  case (snoc d u)
  then have "0 \<le> parseInt u" and "parseInt u < 10 ^ length u" and "48 \<le> d" and "d \<le> 57"
    by (auto simp: is_digit_def)
  then show ?case
    by (simp add: parseInt_snoc)
qed

lemma year_digits_range: "year_digits u \<Longrightarrow> 0 \<le> parseInt u \<and> parseInt u \<le> 9999"
proof -
  assume a: "year_digits u"
  then have "0 \<le> parseInt u" and "parseInt u < 10 ^ length u"
    using parseInt_range by (auto simp: year_digits_def)
  moreover have "(10::int) ^ length u \<le> 10 ^ 4"
    using a by (intro power_increasing) (auto simp: year_digits_def)
  ultimately show ?thesis by simp
qed

lemma year_digits_empty: "year_digits []"
  by (simp add: year_digits_def)

lemma short_year: "grp_holds 3 year_digits SHORT_CITATION"
  by (simp add: SHORT_CITATION_def seqs_def holds_simps mt_digit4 year_digits_def)
     (simp add: block_defs grp_holds_no_groups pinpoint_groups str_Nil str_Cons)

lemma english_ce_year: "grp_holds 3 year_digits ENGLISH_CE_CITATION"
  by (simp add: ENGLISH_CE_CITATION_def seqs_def holds_simps mt_digit4 year_digits_def)
     (simp add: block_defs grp_holds_no_groups pinpoint_groups str_Nil str_Cons)

lemma trailing_ce_year: "grp_holds 2 year_digits TRAILING_SECTION_CE"
  by (simp add: TRAILING_SECTION_CE_def seqs_def holds_simps mt_digit4 year_digits_def)
     (simp add: block_defs grp_holds_no_groups pinpoint_groups str_Nil str_Cons)

lemma parseSection_years:
  "be_year (parseSection sec t b c ty) = Some b \<and> ce_year (parseSection sec t b c ty) = Some c"
  by (simp add: parseSection_def no_citation_def split: option.splits)


text \<open>
  When the first grammar to match is the short one or one of the two with a bare year,
  the four-digit year \<open>y\<close> it captures is read by its magnitude: above 2400 it is the
  Buddhist-era year and the common-era year is \<open>y - 543\<close>; otherwise it is the
  common-era year and the Buddhist-era year is \<open>y + 543\<close>. The parser returns a
  citation with these years, unless it throws.
\<close>

lemma year_by_magnitude:
  assumes "bare_year (trim s) = Some y"
  shows "0 \<le> y \<and> y \<le> 9999
         \<and> (parseCitation s = Inl TypeError
            \<or> (\<exists>p. parseCitation s = Inr p \<and> by_magnitude y p))"
proof -
  have range: "0 \<le> y \<and> y \<le> 9999"
    using assms
      year_digits_range [OF cap_holds [OF _ short_year year_digits_empty]]
      year_digits_range [OF cap_holds [OF _ english_ce_year year_digits_empty]]
      year_digits_range [OF cap_holds [OF _ trailing_ce_year year_digits_empty]]
    by (auto simp: bare_year_def split: if_splits option.splits)
  have "parseCitation s = Inl TypeError \<or> (\<exists>p. parseCitation s = Inr p \<and> by_magnitude y p)"
    using assms
    by (auto simp: bare_year_def parseCitation_def Let_def year_pair_def by_magnitude_def
        parseSection_years split: if_splits option.splits property.splits)
  then show ?thesis using range by simp
qed

text \<open>It throws when the short grammar is the first to match and its title, in lower
  case, names a member that the abbreviation table inherits.\<close>

lemma parseCitation_throws:
  "parseCitation s = Inl e \<longleftrightarrow>
     e = TypeError
     \<and> re_match THAI_CITATION (trim s) = None
     \<and> re_match ENGLISH_BE_CITATION (trim s) = None
     \<and> re_match TRAILING_SECTION_BE (trim s) = None
     \<and> (\<exists>m. re_match SHORT_CITATION (trim s) = Some m
              \<and> resolveAbbreviation (trim (cap m 2)) = Inherited)"
  by (auto simp: parseCitation_def Let_def year_pair_def
      split: option.splits property.splits)

lemma bare_year_examples:
  "bare_year (trim (str ''s. 3, PDPA 2019'')) = Some 2019"
  "bare_year (trim (str ''s. 3, PDPA 2562'')) = Some 2562"
  "parseCitation (str ''s. 3, PDPA 2562'') = Inr pdpa3"
  by (simp_all add: bare_year_def citation_eval pdpa3_def)

text \<open>
  C5. The claim is that every citation matched by the short grammar has its bare year
  read by magnitude, and \<^verbatim>\<open>s. 3, PDPA 2019\<close> does come back with section 3, the
  years 2019 and 2562 and the title the abbreviation stands for. But the short grammar
  looks the title up in an object literal, and a title that names a member the literal
  inherits from \<^verbatim>\<open>Object.prototype\<close> is answered with that member:
  \<^verbatim>\<open>s. 3, constructor 2019\<close> is matched by the short grammar with the bare year
  2019, and the parser throws a TypeError where the claim has a citation of the years
  2019 and 2562.
\<close>

theorem short_citation_inherited_title:
  "bare_year (trim (str ''s. 3, constructor 2019'')) = Some 2019
   \<and> resolveAbbreviation (str ''constructor'') = Inherited
   \<and> parseCitation (str ''s. 3, constructor 2019'') = Inl TypeError
   \<and> bare_year (trim (str ''s. 3, PDPA 2019'')) = Some 2019
   \<and> parseCitation (str ''s. 3, PDPA 2019'') = Inr pdpa3
   \<and> by_magnitude 2019 pdpa3"
  by (simp add: bare_year_def citation_eval pdpa3_def by_magnitude_def)

section \<open>The pinpoint of a bare identifier\<close>

text \<open>
  C1. The claim is that every grammar, the bare-identifier one included, hands its pinpoint
  to the sub-grammar. The source does so in six branches and not in the bare-identifier
  branch, which stores the captured pinpoint whole: \<^verbatim>\<open>pdpa-be2562, s. 3(1)\<close> comes back
  with the section \<^verbatim>\<open>3(1)\<close> and no subsection, where the same pinpoint after
  \<^verbatim>\<open>Section\<close> is split into section 3 and subsection 1.
\<close>

theorem bare_identifier_pinpoint_not_decomposed:
  "parseCitation (str ''pdpa-be2562, s. 3(1)'') =
     Inr (no_citation\<lparr>valid := True, type_f := Statute, title := Some (str ''pdpa-be2562''),
            section_f := Some (str ''3(1)'')\<rparr>)
   \<and> parseCitation (str ''Section 3(1), PDPA B.E. 2562'') =
     Inr (no_citation\<lparr>valid := True, type_f := Statute, title := Some (str ''PDPA''),
            be_year := Some 2562, ce_year := Some 2019, section_f := Some (str ''3''),
            subsection_f := Some (str ''1'')\<rparr>)"
  by (simp add: citation_eval)
end
